theory Spec2Isabelle
  imports Complex_Main "HOL-Library.Word" "HOL-Library.AList"
begin

section \<open>Values of the runtime: bytes, strings, errors\<close>

text \<open>
  A \<open>Buffer\<close> is a list of bytes. A JavaScript string is a list of UTF-16 code units:
  \<open>s.length\<close> counts code units, and a unit in D800..DFFF that is not half of a
  surrogate pair is a legal element of a string. Literals of the source are written with
  \<open>js\<close>.
\<close>

type_synonym byte = "8 word"
type_synonym buffer = "byte list"
type_synonym jsstring = "16 word list"

definition js :: "string \<Rightarrow> jsstring" where
  "js s = map (\<lambda>c. of_nat (of_char c)) s"

text \<open>
  The exception classes of \<open>src/exceptions\<close>, by kind. \<open>NodeError\<close> stands for every
  error thrown by the runtime or a library (TypeError, SyntaxError of \<open>JSON.parse\<close>, the
  errors of \<open>crypto\<close>, \<open>zlib\<close> and \<open>node-forge\<close>), which are not
  subclasses of \<open>EFRISException\<close>.
\<close>

datatype error = AuthenticationError | EncryptionError | APIError | NodeError

subsection \<open>\<open>Buffer.from(s, 'utf8')\<close> and \<open>buf.toString('utf8')\<close>\<close>

definition is_high_surrogate :: "nat \<Rightarrow> bool" where
  "is_high_surrogate u = (0xD800 \<le> u \<and> u \<le> 0xDBFF)"

definition is_low_surrogate :: "nat \<Rightarrow> bool" where
  "is_low_surrogate u = (0xDC00 \<le> u \<and> u \<le> 0xDFFF)"

text \<open>
  The code points a string is encoded from: a surrogate pair is one code point, every
  other unit is itself, and an unpaired surrogate is replaced by U+FFFD.
\<close>

fun code_points :: "nat list \<Rightarrow> nat list" where
  "code_points [] = []"
| "code_points [u] =
     [if is_high_surrogate u \<or> is_low_surrogate u then 0xFFFD else u]"
| "code_points (u # v # us) =
     (if is_high_surrogate u \<and> is_low_surrogate v
      then (0x10000 + (u - 0xD800) * 0x400 + (v - 0xDC00)) # code_points us
      else (if is_high_surrogate u \<or> is_low_surrogate u then 0xFFFD else u)
             # code_points (v # us))"

definition utf8_bytes :: "nat \<Rightarrow> nat list" where
  "utf8_bytes c =
     (if c < 0x80 then [c]
      else if c < 0x800 then [0xC0 + c div 64, 0x80 + c mod 64]
      else if c < 0x10000 then
        [0xE0 + c div 4096, 0x80 + c div 64 mod 64, 0x80 + c mod 64]
      else
        [0xF0 + c div 262144, 0x80 + c div 4096 mod 64, 0x80 + c div 64 mod 64,
         0x80 + c mod 64])"

definition utf8_encode :: "jsstring \<Rightarrow> buffer" where
  "utf8_encode s = map of_nat (concat (map utf8_bytes (code_points (map unat s))))"

text \<open>
  Decoding follows the decoder of the runtime: a well-formed sequence gives its code
  point; an ill-formed one gives one U+FFFD for its longest well-formed prefix and the
  decoding resumes at the offending byte. Second bytes after E0, ED, F0 and F4 have
  narrowed ranges, which excludes overlong forms, surrogates and values above 10FFFF.
\<close>

definition is_cont :: "nat \<Rightarrow> bool" where
  "is_cont b = (0x80 \<le> b \<and> b \<le> 0xBF)"

definition second_ok :: "nat \<Rightarrow> nat \<Rightarrow> bool" where
  "second_ok b c =
     ((if b = 0xE0 then 0xA0 else if b = 0xF0 then 0x90 else 0x80) \<le> c \<and>
      c \<le> (if b = 0xED then 0x9F else if b = 0xF4 then 0x8F else 0xBF))"

fun utf8_scalars :: "nat list \<Rightarrow> nat list" where
  "utf8_scalars [] = []"
| "utf8_scalars (b # bs) =
     (if b < 0x80 then b # utf8_scalars bs
      else if 0xC2 \<le> b \<and> b \<le> 0xDF then
        (case bs of
           [] \<Rightarrow> [0xFFFD]
         | c1 # r1 \<Rightarrow>
             if is_cont c1 then ((b - 0xC0) * 64 + (c1 - 0x80)) # utf8_scalars r1
             else 0xFFFD # utf8_scalars bs)
      else if 0xE0 \<le> b \<and> b \<le> 0xEF then
        (case bs of
           [] \<Rightarrow> [0xFFFD]
         | c1 # r1 \<Rightarrow>
             if second_ok b c1 then
               (case r1 of
                  [] \<Rightarrow> [0xFFFD]
                | c2 # r2 \<Rightarrow>
                    if is_cont c2 then
                      ((b - 0xE0) * 4096 + (c1 - 0x80) * 64 + (c2 - 0x80)) # utf8_scalars r2
                    else 0xFFFD # utf8_scalars r1)
             else 0xFFFD # utf8_scalars bs)
      else if 0xF0 \<le> b \<and> b \<le> 0xF4 then
        (case bs of
           [] \<Rightarrow> [0xFFFD]
         | c1 # r1 \<Rightarrow>
             if second_ok b c1 then
               (case r1 of
                  [] \<Rightarrow> [0xFFFD]
                | c2 # r2 \<Rightarrow>
                    if is_cont c2 then
                      (case r2 of
                         [] \<Rightarrow> [0xFFFD]
                       | c3 # r3 \<Rightarrow>
                           if is_cont c3 then
                             ((b - 0xF0) * 262144 + (c1 - 0x80) * 4096 + (c2 - 0x80) * 64
                                + (c3 - 0x80)) # utf8_scalars r3
                           else 0xFFFD # utf8_scalars r2)
                    else 0xFFFD # utf8_scalars r1)
             else 0xFFFD # utf8_scalars bs)
      else 0xFFFD # utf8_scalars bs)"

definition utf16_units :: "nat \<Rightarrow> nat list" where
  "utf16_units c =
     (if c < 0x10000 then [c]
      else [0xD800 + (c - 0x10000) div 0x400, 0xDC00 + (c - 0x10000) mod 0x400])"

definition utf8_decode :: "buffer \<Rightarrow> jsstring" where
  "utf8_decode buf = map of_nat (concat (map utf16_units (utf8_scalars (map unat buf))))"

text \<open>
  A string is well formed when every high surrogate is followed by a low one and no low
  surrogate stands alone: the strings that \<open>Buffer.from(s, 'utf8')\<close> encodes without
  a replacement.
\<close>

fun well_formed_units :: "nat list \<Rightarrow> bool" where
  "well_formed_units [] = True"
| "well_formed_units [u] = (\<not> is_high_surrogate u \<and> \<not> is_low_surrogate u)"
| "well_formed_units (u # v # us) =
     (if is_high_surrogate u then is_low_surrogate v \<and> well_formed_units us
      else \<not> is_low_surrogate u \<and> well_formed_units (v # us))"

definition well_formed :: "jsstring \<Rightarrow> bool" where
  "well_formed s = well_formed_units (map unat s)"

text \<open>A Unicode scalar value: a code point that is not a surrogate.\<close>

definition is_scalar :: "nat \<Rightarrow> bool" where
  "is_scalar c = (c < 0x110000 \<and> \<not> (0xD800 \<le> c \<and> c \<le> 0xDFFF))"

subsection \<open>\<open>Buffer.alloc\<close> and \<open>buf.slice\<close>\<close>

definition buffer_alloc :: "nat \<Rightarrow> nat \<Rightarrow> buffer" where
  "buffer_alloc n fill = replicate n (of_nat fill)"

text \<open>A negative index of \<open>slice\<close> counts from the end; both ends are clamped.\<close>

definition slice_index :: "nat \<Rightarrow> int \<Rightarrow> nat" where
  "slice_index len i = (if i < 0 then nat (int len + i) else min (nat i) len)"

definition slice :: "'a list \<Rightarrow> int \<Rightarrow> int \<Rightarrow> 'a list" where
  "slice buf i j =
     (let s = slice_index (length buf) i; e = slice_index (length buf) j
      in take (e - s) (drop s buf))"

subsection \<open>\<open>buf.toString('base64')\<close> and \<open>Buffer.from(s, 'base64')\<close>\<close>

definition b64_char :: "nat \<Rightarrow> nat" where
  "b64_char n =
     (if n < 26 then 65 + n
      else if n < 52 then 97 + (n - 26)
      else if n < 62 then 48 + (n - 52)
      else if n = 62 then 43 else 47)"

text \<open>Three bytes give four characters; a last group of one or two bytes is filled with \<open>=\<close>.\<close>

fun b64_groups :: "nat list \<Rightarrow> nat list" where
  "b64_groups [] = []"
| "b64_groups [a] = [b64_char (a div 4), b64_char (a mod 4 * 16), 61, 61]"
| "b64_groups [a, b] =
     [b64_char (a div 4), b64_char (a mod 4 * 16 + b div 16), b64_char (b mod 16 * 4), 61]"
| "b64_groups (a # b # c # r) =
     [b64_char (a div 4), b64_char (a mod 4 * 16 + b div 16),
      b64_char (b mod 16 * 4 + c div 64), b64_char (c mod 64)] @ b64_groups r"

definition base64_encode :: "buffer \<Rightarrow> jsstring" where
  "base64_encode buf = map of_nat (b64_groups (map unat buf))"

text \<open>
  The decoder reads each code unit by its low byte (a unit above U+00FF counts as the
  character of its low eight bits), accepts the standard and the URL-safe alphabet,
  skips every other character and stops at the first \<open>=\<close>. A last group of two or
  three characters gives one or two bytes; a single left-over character gives none.
\<close>

definition b64_value :: "nat \<Rightarrow> nat option" where
  "b64_value c =
     (if 65 \<le> c \<and> c \<le> 90 then Some (c - 65)
      else if 97 \<le> c \<and> c \<le> 122 then Some (c - 71)
      else if 48 \<le> c \<and> c \<le> 57 then Some (c + 4)
      else if c = 43 \<or> c = 45 then Some 62
      else if c = 47 \<or> c = 95 then Some 63
      else None)"

fun b64_sextets :: "nat list \<Rightarrow> nat list" where
  "b64_sextets [] = []"
| "b64_sextets (c # cs) =
     (if c = 61 then []
      else case b64_value c of
             Some v \<Rightarrow> v # b64_sextets cs
           | None \<Rightarrow> b64_sextets cs)"

fun b64_bytes :: "nat list \<Rightarrow> nat list" where
  "b64_bytes (s0 # s1 # s2 # s3 # r) =
     [s0 * 4 + s1 div 16, s1 mod 16 * 16 + s2 div 4, s2 mod 4 * 64 + s3] @ b64_bytes r"
| "b64_bytes [s0, s1, s2] = [s0 * 4 + s1 div 16, s1 mod 16 * 16 + s2 div 4]"
| "b64_bytes [s0, s1] = [s0 * 4 + s1 div 16]"
| "b64_bytes [s0] = []"
| "b64_bytes [] = []"

definition base64_decode :: "jsstring \<Rightarrow> buffer" where
  "base64_decode s = map of_nat (b64_bytes (b64_sextets (map (\<lambda>c. unat c mod 256) s)))"

subsection \<open>\<open>buf.toString('hex')\<close> and \<open>Buffer.from(s, 'hex')\<close>\<close>

definition hex_digit :: "nat \<Rightarrow> nat" where
  "hex_digit n = (if n < 10 then 48 + n else 87 + n)"

definition hex_encode :: "buffer \<Rightarrow> jsstring" where
  "hex_encode buf =
     map of_nat (concat (map (\<lambda>b. [hex_digit (b div 16), hex_digit (b mod 16)]) (map unat buf)))"

definition hex_value :: "nat \<Rightarrow> nat option" where
  "hex_value c =
     (if 48 \<le> c \<and> c \<le> 57 then Some (c - 48)
      else if 97 \<le> c \<and> c \<le> 102 then Some (c - 87)
      else if 65 \<le> c \<and> c \<le> 70 then Some (c - 55)
      else None)"

text \<open>Pairs of digits are decoded up to the first pair that is not hexadecimal.\<close>

fun hex_bytes :: "nat list \<Rightarrow> nat list" where
  "hex_bytes (h # l # r) =
     (case (hex_value h, hex_value l) of
        (Some a, Some b) \<Rightarrow> (a * 16 + b) # hex_bytes r
      | _ \<Rightarrow> [])"
| "hex_bytes [h] = []"
| "hex_bytes [] = []"

definition hex_decode :: "jsstring \<Rightarrow> buffer" where
  "hex_decode s = map of_nat (hex_bytes (map unat s))"

subsection \<open>Values read from JSON\<close>

text \<open>
  A value of the shape \<open>Record<string, any>\<close>: what \<open>JSON.parse\<close> returns and what
  a request carries. A missing property (\<open>undefined\<close>) is \<open>None\<close>.
\<close>

datatype json =
    JNull
  | JBool bool
  | JNum real
  | JStr jsstring
  | JArr "json list"
  | JObj "(jsstring \<times> json) list"

text \<open>
  \<open>v.name\<close> for the property names the source reads (none of them is defined on
  strings, numbers or arrays): a TypeError on \<open>null\<close> and \<open>undefined\<close>.
\<close>

fun get_prop :: "json option \<Rightarrow> jsstring \<Rightarrow> error + json option" where
  "get_prop None name = Inl NodeError"
| "get_prop (Some JNull) name = Inl NodeError"
| "get_prop (Some (JObj kvs)) name = Inr (map_of kvs name)"
| "get_prop (Some v) name = Inr None"

text \<open>\<open>v?.name\<close>: \<open>undefined\<close> where \<open>v\<close> is \<open>null\<close> or \<open>undefined\<close>.\<close>

fun opt_prop :: "json option \<Rightarrow> jsstring \<Rightarrow> json option" where
  "opt_prop (Some (JObj kvs)) name = map_of kvs name"
| "opt_prop v name = None"

fun truthy :: "json option \<Rightarrow> bool" where
  "truthy None = False"
| "truthy (Some JNull) = False"
| "truthy (Some (JBool b)) = b"
| "truthy (Some (JNum x)) = (x \<noteq> 0)"
| "truthy (Some (JStr s)) = (s \<noteq> [])"
| "truthy (Some (JArr xs)) = True"
| "truthy (Some (JObj kvs)) = True"

text \<open>\<open>a || b\<close> and \<open>a ?? b\<close>.\<close>

definition or_else :: "json option \<Rightarrow> json \<Rightarrow> json" where
  "or_else a b = (case a of Some v \<Rightarrow> if truthy a then v else b | None \<Rightarrow> b)"

fun nullish :: "json option \<Rightarrow> json option \<Rightarrow> json option" where
  "nullish None b = b"
| "nullish (Some JNull) b = b"
| "nullish (Some v) b = Some v"

text \<open>\<open>Object.keys(v).length\<close> for arrays and objects.\<close>

fun keys_length :: "json \<Rightarrow> nat" where
  "keys_length (JArr xs) = length xs"
| "keys_length (JObj kvs) = length (remdups (map fst kvs))"
| "keys_length (JStr s) = length s"
| "keys_length v = 0"

subsection \<open>Library functions taken as parameters\<close>

text \<open>
  A private key is a \<open>crypto.KeyObject\<close> or a PEM string. The functions of \<open>crypto\<close>,
  \<open>zlib\<close> and \<open>JSON\<close> that the source calls are fields of \<open>runtime\<close>:
  \<^item> \<open>aes_ecb_encrypt key data\<close> and \<open>aes_ecb_decrypt key data\<close>: what
    \<open>update(data)\<close> followed by \<open>final()\<close> returns for a cipher made by
    \<open>createCipheriv\<close> or \<open>createDecipheriv\<close> in ECB mode without automatic padding;
  \<^item> \<open>rsa_sha1_sign key data\<close>: what \<open>sign.sign(key)\<close> returns after
    \<open>sign.update\<close> of the bytes \<open>data\<close>, \<open>None\<close> where it throws (no key, a malformed
    PEM string, a key that is not a private key);
  \<^item> \<open>Buffer_from v\<close>: what \<open>Buffer.from(v, 'base64')\<close> returns for a value \<open>v\<close>
    that is not a string (the bytes of an array or of an object shaped like a Buffer),
    \<open>None\<close> where it throws a TypeError;
  \<open>gunzipSync\<close>, \<open>privateDecrypt\<close> and \<open>JSON.parse\<close> are \<open>None\<close> where they throw.
\<close>

datatype private_key = KeyObject buffer | PemString jsstring

record runtime =
  aes_ecb_encrypt :: "buffer \<Rightarrow> buffer \<Rightarrow> buffer"
  aes_ecb_decrypt :: "buffer \<Rightarrow> buffer \<Rightarrow> buffer"
  gunzipSync :: "buffer \<Rightarrow> buffer option"
  rsa_sha1_sign :: "private_key \<Rightarrow> buffer \<Rightarrow> buffer option"
  privateDecrypt :: "private_key \<Rightarrow> buffer \<Rightarrow> buffer option"
  JSON_parse :: "jsstring \<Rightarrow> json option"
  JSON_stringify :: "json \<Rightarrow> jsstring"
  Buffer_from :: "json \<Rightarrow> buffer option"

text \<open>\<open>Buffer.from(v, 'base64')\<close> for any value: a string is decoded.\<close>

definition buffer_from_base64 :: "runtime \<Rightarrow> json \<Rightarrow> error + buffer" where
  "buffer_from_base64 rt v =
     (case v of
        JStr s \<Rightarrow> Inr (base64_decode s)
      | _ \<Rightarrow> (case Buffer_from rt v of None \<Rightarrow> Inl NodeError | Some b \<Rightarrow> Inr b))"

section \<open>CryptoUtils: PKCS7 padding\<close>

definition AES_BLOCK_SIZE :: nat where
  "AES_BLOCK_SIZE = 16"

datatype pad_input = Buf buffer | Str jsstring

definition pkcs7Pad :: "pad_input \<Rightarrow> buffer" where
  "pkcs7Pad data =
     (let buf = (case data of Str s \<Rightarrow> utf8_encode s | Buf b \<Rightarrow> b);
          padLen = AES_BLOCK_SIZE - (length buf mod AES_BLOCK_SIZE);
          padding = buffer_alloc padLen padLen
      in buf @ padding)"

definition pkcs7Unpad :: "buffer \<Rightarrow> error + buffer" where
  "pkcs7Unpad data =
     (if length data = 0 then Inl EncryptionError
      else
        let padLen = unat (last data) in
        if padLen < 1 \<or> padLen > AES_BLOCK_SIZE then Inl EncryptionError
        else
          let padding = slice data (- int padLen) (int (length data)) in
          if padding \<noteq> buffer_alloc padLen padLen then Inl EncryptionError
          else Inr (slice data 0 (int (length data) - int padLen)))"




section \<open>CryptoUtils: AES in ECB mode\<close>

text \<open>The test of \<open>/^[0-9a-fA-F]+$/\<close>: a non-empty string of hexadecimal digits.\<close>

definition is_hex_string :: "jsstring \<Rightarrow> bool" where
  "is_hex_string s = (s \<noteq> [] \<and> list_all (\<lambda>c. hex_value (unat c) \<noteq> None) s)"

definition valid_key_length :: "nat \<Rightarrow> bool" where
  "valid_key_length n = (n \<in> set [16, 24, 32])"

definition normalizeAesKey :: "jsstring \<Rightarrow> buffer" where
  "normalizeAesKey key =
     (if is_hex_string key \<and> length key mod 2 = 0
      then let decoded = hex_decode key in
           if valid_key_length (length decoded) then decoded else utf8_encode key
      else utf8_encode key)"

text \<open>
  \<open>createCipheriv('aes-<bits>-ecb', key, null)\<close> throws for a key that is not 16, 24 or
  32 bytes long, and \<open>final()\<close> throws without automatic padding for data that is not
  a whole number of blocks.
\<close>

definition cipher_run :: "(buffer \<Rightarrow> buffer \<Rightarrow> buffer) \<Rightarrow> buffer \<Rightarrow> buffer \<Rightarrow> error + buffer" where
  "cipher_run f keyBuf data =
     (if \<not> valid_key_length (length keyBuf) then Inl NodeError
      else if length data mod 16 \<noteq> 0 then Inl NodeError
      else Inr (f keyBuf data))"

definition encryptAesEcb :: "runtime \<Rightarrow> jsstring \<Rightarrow> jsstring \<Rightarrow> error + jsstring" where
  "encryptAesEcb rt plaintext key =
     (let keyBuf = normalizeAesKey key in
      if \<not> valid_key_length (length keyBuf) then Inl EncryptionError
      else
        let padded = pkcs7Pad (Str plaintext) in
        case cipher_run (aes_ecb_encrypt rt) keyBuf padded of
          Inl e \<Rightarrow> Inl e
        | Inr encrypted \<Rightarrow> Inr (base64_encode encrypted))"

text \<open>
  The key is optional: \<open>None\<close> is \<open>undefined\<close>, and \<open>!key\<close> also holds for the empty
  string; \<open>truthy_string\<close> gives the key where \<open>!key\<close> is false. The defaults of \<open>encryptCode\<close> and \<open>zipCode\<close> are \<open>'2'\<close> and \<open>'0'\<close>.
\<close>

fun truthy_string :: "jsstring option \<Rightarrow> jsstring option" where
  "truthy_string None = None"
| "truthy_string (Some s) = (if s = [] then None else Some s)"

definition not_gzipped :: "buffer \<Rightarrow> bool" where
  "not_gzipped dataBytes =
     (case dataBytes of
        b0 # b1 # _ \<Rightarrow> b0 \<noteq> 0x1f \<or> b1 \<noteq> 0x8b
      | _ \<Rightarrow> True)"

text \<open>Lines 80 to 108 of \<open>decryptAesEcb\<close>: what is done with the decoded bytes.\<close>

definition decrypt_data ::
  "runtime \<Rightarrow> buffer \<Rightarrow> jsstring option \<Rightarrow> jsstring \<Rightarrow> jsstring \<Rightarrow> error + jsstring" where
  "decrypt_data rt decoded key encryptCode zipCode =
     (case (if zipCode = js ''1'' then
              (if not_gzipped decoded then Inl EncryptionError
               else case gunzipSync rt decoded of
                      None \<Rightarrow> Inl NodeError
                    | Some unzipped \<Rightarrow> Inr unzipped)
            else Inr decoded) of
        Inl e \<Rightarrow> Inl e
      | Inr dataBytes \<Rightarrow>
          if encryptCode = js ''2'' then
            (case truthy_string key of
               None \<Rightarrow> Inl EncryptionError
             | Some k \<Rightarrow>
                 let keyBuf = normalizeAesKey k in
                 if length dataBytes mod AES_BLOCK_SIZE \<noteq> 0 then Inl EncryptionError
                 else
                   case cipher_run (aes_ecb_decrypt rt) keyBuf dataBytes of
                     Inl e \<Rightarrow> Inl e
                   | Inr decrypted \<Rightarrow>
                       (case pkcs7Unpad decrypted of
                          Inl e \<Rightarrow> Inl e
                        | Inr unpadded \<Rightarrow> Inr (utf8_decode unpadded)))
          else Inr (utf8_decode dataBytes))"

definition decryptAesEcb ::
  "runtime \<Rightarrow> jsstring \<Rightarrow> jsstring option \<Rightarrow> jsstring \<Rightarrow> jsstring \<Rightarrow> error + jsstring" where
  "decryptAesEcb rt ciphertextB64 key encryptCode zipCode =
     (if ciphertextB64 = [] then Inr []
      else decrypt_data rt (base64_decode ciphertextB64) key encryptCode zipCode)"

section \<open>CryptoUtils: signature and request envelopes\<close>

text \<open>
  \<open>sign.update(data)\<close> hashes the UTF-8 bytes of the string; an error of
  \<open>sign.sign(privateKey)\<close> is not caught.
\<close>

definition signRsaSha1 :: "runtime \<Rightarrow> jsstring \<Rightarrow> private_key \<Rightarrow> error + jsstring" where
  "signRsaSha1 rt data privateKey =
     (case rsa_sha1_sign rt privateKey (utf8_encode data) of
        None \<Rightarrow> Inl NodeError
      | Some signature \<Rightarrow> Inr (base64_encode signature))"

text \<open>\<open>toUpperCase\<close> on the output of \<open>toString('hex')\<close>: only a..f change.\<close>

definition toUpperCase :: "jsstring \<Rightarrow> jsstring" where
  "toUpperCase s = map (\<lambda>c. if 97 \<le> unat c \<and> unat c \<le> 122 then c - 32 else c) s"

text \<open>
  An object literal is a \<open>JObj\<close> with the properties in the order of the source.
  \<open>randomBytes\<close> is the result of \<open>crypto.randomBytes(16)\<close> and \<open>timestamp\<close> that of
  \<open>TimeUtils.getUgandaTimestamp()\<close> at the call.
\<close>

definition buildGlobalInfo ::
  "buffer \<Rightarrow> jsstring \<Rightarrow> jsstring \<Rightarrow> jsstring \<Rightarrow> jsstring \<Rightarrow> jsstring \<Rightarrow> jsstring \<Rightarrow> jsstring
     \<Rightarrow> jsstring \<Rightarrow> jsstring \<Rightarrow> json" where
  "buildGlobalInfo randomBytes timestamp interfaceCode tin deviceNo brn user longitude latitude
     taxpayerId =
     JObj [
       (js ''appId'', JStr (js ''AP04'')),
       (js ''version'', JStr (js ''1.1.20191201'')),
       (js ''dataExchangeId'', JStr (toUpperCase (hex_encode randomBytes))),
       (js ''interfaceCode'', JStr interfaceCode),
       (js ''requestCode'', JStr (js ''TP'')),
       (js ''requestTime'', JStr timestamp),
       (js ''responseCode'', JStr (js ''TA'')),
       (js ''userName'', JStr user),
       (js ''deviceMAC'', JStr (js ''FFFFFFFFFFFF'')),
       (js ''deviceNo'', JStr deviceNo),
       (js ''tin'', JStr tin),
       (js ''brn'', JStr brn),
       (js ''taxpayerID'', JStr (if taxpayerId \<noteq> [] then taxpayerId else js ''1'')),
       (js ''longitude'', JStr longitude),
       (js ''latitude'', JStr latitude),
       (js ''agentType'', JStr (js ''0'')),
       (js ''extendField'', JObj [
          (js ''responseDateFormat'', JStr (js ''dd/MM/yyyy'')),
          (js ''responseTimeFormat'', JStr (js ''dd/MM/yyyy HH:mm:ss'')),
          (js ''referenceNo'', JStr []),
          (js ''operatorName'', JStr user),
          (js ''offlineInvoiceException'', JObj [
             (js ''errorCode'', JStr []),
             (js ''errorMsg'', JStr [])])])]"

definition envelope :: "jsstring \<Rightarrow> jsstring \<Rightarrow> jsstring \<Rightarrow> jsstring \<Rightarrow> jsstring \<Rightarrow> json \<Rightarrow> json" where
  "envelope content signature codeType encryptCode zipCode globalInfo =
     JObj [
       (js ''data'', JObj [
          (js ''content'', JStr content),
          (js ''signature'', JStr signature),
          (js ''dataDescription'', JObj [
             (js ''codeType'', JStr codeType),
             (js ''encryptCode'', JStr encryptCode),
             (js ''zipCode'', JStr zipCode)])]),
       (js ''globalInfo'', globalInfo),
       (js ''returnStateInfo'', JObj [
          (js ''returnCode'', JStr []),
          (js ''returnMessage'', JStr [])])]"

definition buildEncryptedRequest ::
  "runtime \<Rightarrow> buffer \<Rightarrow> jsstring \<Rightarrow> json \<Rightarrow> jsstring \<Rightarrow> jsstring \<Rightarrow> jsstring \<Rightarrow> jsstring
     \<Rightarrow> jsstring \<Rightarrow> private_key \<Rightarrow> jsstring \<Rightarrow> error + json" where
  "buildEncryptedRequest rt randomBytes timestamp content aesKey interfaceCode tin deviceNo brn
     privateKey taxpayerId =
     (let jsonContent = JSON_stringify rt content in
      case encryptAesEcb rt jsonContent aesKey of
        Inl e \<Rightarrow> Inl e
      | Inr encrypted \<Rightarrow>
          (case signRsaSha1 rt encrypted privateKey of
             Inl e \<Rightarrow> Inl e
           | Inr signature \<Rightarrow>
               Inr (envelope encrypted signature (js ''1'') (js ''2'') (js ''0'')
                      (buildGlobalInfo randomBytes timestamp interfaceCode tin deviceNo brn
                         (js ''admin'') (js ''32.5825'') (js ''0.3476'') taxpayerId))))"

text \<open>\<open>if (privateKey)\<close>: false for \<open>undefined\<close> and for an empty PEM string.\<close>

fun truthy_key :: "private_key option \<Rightarrow> private_key option" where
  "truthy_key None = None"
| "truthy_key (Some (PemString s)) = (if s = [] then None else Some (PemString s))"
| "truthy_key (Some (KeyObject k)) = Some (KeyObject k)"

definition buildUnencryptedRequest ::
  "runtime \<Rightarrow> buffer \<Rightarrow> jsstring \<Rightarrow> json \<Rightarrow> jsstring \<Rightarrow> jsstring \<Rightarrow> jsstring \<Rightarrow> jsstring
     \<Rightarrow> private_key option \<Rightarrow> jsstring \<Rightarrow> error + json" where
  "buildUnencryptedRequest rt randomBytes timestamp content interfaceCode tin deviceNo brn
     privateKey taxpayerId =
     (case (if truthy (Some content) \<and> keys_length content > 0 then
              let jsonContent = JSON_stringify rt content;
                  contentB64 = base64_encode (utf8_encode jsonContent)
              in (case truthy_key privateKey of
                    Some k \<Rightarrow>
                      (case signRsaSha1 rt contentB64 k of
                         Inl e \<Rightarrow> Inl e
                       | Inr signature \<Rightarrow> Inr (contentB64, signature))
                  | None \<Rightarrow> Inr (contentB64, []))
            else Inr ([], [])) of
        Inl e \<Rightarrow> Inl e
      | Inr (contentB64, signature) \<Rightarrow>
          Inr (envelope contentB64 signature (js ''0'') (js ''1'') (js ''0'')
                 (buildGlobalInfo randomBytes timestamp interfaceCode tin deviceNo brn
                    (js ''admin'') (js ''32.5825'') (js ''0.3476'') taxpayerId)))"

section \<open>CryptoUtils: unwrapping a response\<close>

text \<open>
  A flag of \<open>dataDescription\<close> is compared with string literals only. A flag that is
  not a string is unequal to each of them, as the empty string is, and is handed on as
  the empty string.
\<close>

fun flag_text :: "json \<Rightarrow> jsstring" where
  "flag_text (JStr s) = s"
| "flag_text v = []"

text \<open>
  The body of the \<open>try\<close> block. \<open>contentB64\<close> is the truthy value of
  \<open>data.content\<close>: a string in every envelope of the protocol, and whatever the
  response holds otherwise. \<open>decryptAesEcb\<close> is past its first test for such a value
  and goes on with the bytes \<open>Buffer.from\<close> gives.
\<close>

definition decode_content ::
  "runtime \<Rightarrow> json \<Rightarrow> jsstring option \<Rightarrow> json \<Rightarrow> json \<Rightarrow> json \<Rightarrow> error + json" where
  "decode_content rt contentB64 aesKey codeType encryptCode zipCode =
     (case (if codeType = JStr (js ''1'') then
              (case truthy_string aesKey of
                 None \<Rightarrow> Inl EncryptionError
               | Some k \<Rightarrow>
                   (case contentB64 of
                      JStr s \<Rightarrow>
                        decryptAesEcb rt s (Some k) (flag_text encryptCode) (flag_text zipCode)
                    | _ \<Rightarrow>
                        (case buffer_from_base64 rt contentB64 of
                           Inl e \<Rightarrow> Inl e
                         | Inr dataBytes \<Rightarrow>
                             decrypt_data rt dataBytes (Some k) (flag_text encryptCode)
                               (flag_text zipCode))))
            else
              (case buffer_from_base64 rt contentB64 of
                 Inl e \<Rightarrow> Inl e
               | Inr decodedBytes \<Rightarrow>
                   if zipCode = JStr (js ''1'') then
                     (case gunzipSync rt decodedBytes of
                        None \<Rightarrow> Inl NodeError
                      | Some unzipped \<Rightarrow> Inr (utf8_decode unzipped))
                   else Inr (utf8_decode decodedBytes))) of
        Inl e \<Rightarrow> Inl e
      | Inr contentStr \<Rightarrow>
          (case JSON_parse rt contentStr of
             None \<Rightarrow> Inl NodeError
           | Some decodedContent \<Rightarrow> Inr decodedContent))"

text \<open>\<open>responseJson.data.content = decodedContent\<close>, on objects.\<close>

fun set_prop :: "json \<Rightarrow> jsstring \<Rightarrow> json \<Rightarrow> json" where
  "set_prop (JObj kvs) name v = JObj (AList.update name v kvs)"
| "set_prop obj name v = obj"

definition set_data_content :: "json \<Rightarrow> json \<Rightarrow> json" where
  "set_data_content responseJson decodedContent =
     (case opt_prop (Some responseJson) (js ''data'') of
        Some dataSection \<Rightarrow>
          set_prop responseJson (js ''data'') (set_prop dataSection (js ''content'') decodedContent)
      | None \<Rightarrow> responseJson)"

definition unwrapResponse :: "runtime \<Rightarrow> json \<Rightarrow> jsstring option \<Rightarrow> error + json" where
  "unwrapResponse rt responseJson aesKey =
     (case get_prop (Some responseJson) (js ''data'') of
        Inl e \<Rightarrow> Inl e
      | Inr dataProp \<Rightarrow>
          let dataSection = or_else dataProp (JObj []);
              contentB64 = or_else (opt_prop (Some dataSection) (js ''content'')) (JStr [])
          in
          if \<not> truthy (Some contentB64) then Inr responseJson
          else
            let dataDesc = or_else (opt_prop (Some dataSection) (js ''dataDescription'')) (JObj []);
                codeType = or_else (opt_prop (Some dataDesc) (js ''codeType'')) (JStr (js ''0''));
                encryptCode = or_else (opt_prop (Some dataDesc) (js ''encryptCode'')) (JStr (js ''0''));
                zipCode = or_else (opt_prop (Some dataDesc) (js ''zipCode'')) (JStr (js ''0''))
            in
            case decode_content rt contentB64 aesKey codeType encryptCode zipCode of
              Inl e \<Rightarrow> Inl EncryptionError
            | Inr decodedContent \<Rightarrow> Inr (set_data_content responseJson decodedContent))"

section \<open>KeyClient\<close>

text \<open>
  The fields of a \<open>KeyClient\<close> that its methods read or write; \<open>this_x\<close> is
  \<open>this.x\<close> or \<open>this._x\<close>. Times are numbers: \<open>Date.now()\<close> is an integer of
  milliseconds, \<open>_aesKeyFetchedAt\<close> an integer of seconds.
\<close>

record KeyClient =
  this_tin :: jsstring
  this_deviceNo :: jsstring
  this_brn :: jsstring
  this_sandbox :: bool
  this_taxpayerId :: jsstring
  this_privateKey :: "private_key option"
  this_aesKey :: "jsstring option"
  this_aesKeyFetchedAt :: "int option"
  this_aesKeyTtlSeconds :: int
  this_aesKeyContentJson :: "json option"

definition new_KeyClient :: "jsstring \<Rightarrow> jsstring \<Rightarrow> jsstring \<Rightarrow> bool \<Rightarrow> jsstring \<Rightarrow> KeyClient" where
  "new_KeyClient tin deviceNo brn sandbox taxpayerId =
     \<lparr> this_tin = tin, this_deviceNo = deviceNo, this_brn = brn, this_sandbox = sandbox,
       this_taxpayerId = taxpayerId, this_privateKey = None, this_aesKey = None,
       this_aesKeyFetchedAt = None, this_aesKeyTtlSeconds = 23 * 60 * 60,
       this_aesKeyContentJson = None \<rparr>"

definition T104_ENDPOINT_TEST :: jsstring where
  "T104_ENDPOINT_TEST = js ''https://efristest.ura.go.ug/efrisws/ws/taapp/getInformation''"

definition T104_ENDPOINT_PROD :: jsstring where
  "T104_ENDPOINT_PROD = js ''https://efrisws.ura.go.ug/ws/taapp/getInformation''"

definition getEndpoint :: "KeyClient \<Rightarrow> jsstring" where
  "getEndpoint c = (if this_sandbox c then T104_ENDPOINT_TEST else T104_ENDPOINT_PROD)"

text \<open>
  \<open>pfx\<close> is what \<open>loadPrivateKeyFromPfx()\<close> does at the call: the key of the
  container file, or the error it throws.
\<close>

definition loadPrivateKey ::
  "error + private_key \<Rightarrow> KeyClient \<Rightarrow> (error + private_key) \<times> KeyClient" where
  "loadPrivateKey pfx c =
     (case this_privateKey c of
        Some k \<Rightarrow> (Inr k, c)
      | None \<Rightarrow>
          (case pfx of
             Inl e \<Rightarrow> (Inl e, c)
           | Inr k \<Rightarrow> (Inr k, c\<lparr>this_privateKey := Some k\<rparr>)))"

text \<open>Lines 141 to 152 of \<open>fetchAesKey\<close>: the key made from the decrypted candidate.\<close>

definition aesKey_of_candidate :: "buffer \<Rightarrow> error + buffer" where
  "aesKey_of_candidate aesKeyCandidate =
     (let aesKey =
        (if length aesKeyCandidate = 8 then slice (aesKeyCandidate @ aesKeyCandidate) 0 16
         else if valid_key_length (length aesKeyCandidate) then aesKeyCandidate
         else slice aesKeyCandidate 0 16)
      in if \<not> valid_key_length (length aesKey) then Inl EncryptionError else Inr aesKey)"

text \<open>
  The body of the second \<open>try\<close> block up to the assignments: the key and the decoded
  content of a successful handshake response.
\<close>

definition extract_aes_key :: "runtime \<Rightarrow> private_key \<Rightarrow> json \<Rightarrow> error + (buffer \<times> json)" where
  "extract_aes_key rt privateKey respJson =
     (let contentB64 = opt_prop (opt_prop (Some respJson) (js ''data'')) (js ''content'') in
      if \<not> truthy contentB64 then Inl EncryptionError
      else
        case contentB64 of
          None \<Rightarrow> Inl EncryptionError
        | Some content \<Rightarrow>
            (case buffer_from_base64 rt content of
               Inl e \<Rightarrow> Inl e
             | Inr contentBytes \<Rightarrow>
                 (case JSON_parse rt (utf8_decode contentBytes) of
                    None \<Rightarrow> Inl NodeError
                  | Some contentJson \<Rightarrow>
                      (case get_prop (Some contentJson) (js ''passowrdDes'') of
                         Inl e \<Rightarrow> Inl e
                       | Inr passowrdDes \<Rightarrow>
                           let encryptedAesB64 =
                                 nullish passowrdDes
                                   (opt_prop (Some contentJson) (js ''passwordDes''))
                           in
                           if \<not> truthy encryptedAesB64 then Inl EncryptionError
                           else
                             case encryptedAesB64 of
                               None \<Rightarrow> Inl EncryptionError
                             | Some encrypted \<Rightarrow>
                                 (case buffer_from_base64 rt encrypted of
                                    Inl e \<Rightarrow> Inl e
                                  | Inr encryptedAes \<Rightarrow>
                                      (case privateDecrypt rt privateKey encryptedAes of
                                         None \<Rightarrow> Inl NodeError
                                       | Some aesKeyRaw \<Rightarrow>
                                           let decoded = base64_decode (utf8_decode aesKeyRaw);
                                               aesKeyCandidate =
                                                 (if length decoded = 0 then aesKeyRaw
                                                  else decoded)
                                           in
                                           case aesKey_of_candidate aesKeyCandidate of
                                             Inl e \<Rightarrow> Inl e
                                           | Inr aesKey \<Rightarrow> Inr (aesKey, contentJson)))))))"

text \<open>
  \<open>fetchAesKey\<close> is asynchronous: it runs to its result, or to the \<open>await\<close> of the
  POST, where it is suspended with the URL, the payload and its local \<open>privateKey\<close>,
  and runs again from there when the exchange ends.
\<close>

datatype fetch_progress = Returned jsstring | AwaitPost jsstring json private_key

definition fetchAesKey_begin ::
  "runtime \<Rightarrow> error + private_key \<Rightarrow> int \<Rightarrow> buffer \<Rightarrow> jsstring \<Rightarrow> bool \<Rightarrow> KeyClient
     \<Rightarrow> (error + fetch_progress) \<times> KeyClient" where
  "fetchAesKey_begin rt pfx now randomBytes timestamp force c =
     (case (if \<not> force then
              (case (truthy_string (this_aesKey c), this_aesKeyFetchedAt c) of
                 (Some k, Some fetchedAt) \<Rightarrow>
                   if fetchedAt \<noteq> 0 \<and>
                      real_of_int now / 1000 - real_of_int fetchedAt
                        < real_of_int (this_aesKeyTtlSeconds c)
                   then Some k else None
               | _ \<Rightarrow> None)
            else None) of
        Some k \<Rightarrow> (Inr (Returned k), c)
      | None \<Rightarrow>
          (case loadPrivateKey pfx c of
             (Inl e, c') \<Rightarrow> (Inl e, c')
           | (Inr privateKey, c') \<Rightarrow>
               (case buildUnencryptedRequest rt randomBytes timestamp (JArr []) (js ''T104'')
                       (this_tin c') (this_deviceNo c') (this_brn c') (Some privateKey)
                       (this_taxpayerId c') of
                  Inl e \<Rightarrow> (Inl e, c')
                | Inr payload \<Rightarrow>
                    let url = getEndpoint c' in
                    (Inr (AwaitPost url payload privateKey), c'))))"

text \<open>
  The rest of \<open>fetchAesKey\<close>. \<open>resp\<close> is the outcome of the POST: \<open>None\<close> where
  \<open>axios\<close> throws (a transport error, a timeout, a cancelled exchange), else
  \<open>resp.data\<close>.
\<close>

definition fetchAesKey_end ::
  "runtime \<Rightarrow> int \<Rightarrow> private_key \<Rightarrow> json option \<Rightarrow> KeyClient \<Rightarrow> (error + jsstring) \<times> KeyClient" where
  "fetchAesKey_end rt now privateKey resp c =
     (case resp of
        None \<Rightarrow> (Inl APIError, c)
      | Some respJson \<Rightarrow>
          (case get_prop (Some respJson) (js ''returnStateInfo'') of
             Inl e \<Rightarrow> (Inl e, c)
           | Inr returnStateInfo \<Rightarrow>
               let returnState = nullish returnStateInfo (Some (JObj [])) in
               if nullish (opt_prop returnState (js ''returnMessage'')) (Some (JStr []))
                    \<noteq> Some (JStr (js ''SUCCESS''))
               then (Inl APIError, c)
               else
                 (case extract_aes_key rt privateKey respJson of
                    Inl e \<Rightarrow> (Inl EncryptionError, c)
                  | Inr (aesKey, contentJson) \<Rightarrow>
                      (Inr (hex_encode aesKey),
                       c\<lparr> this_aesKey := Some (hex_encode aesKey),
                          this_aesKeyFetchedAt := Some (now div 1000),
                          this_aesKeyContentJson := Some contentJson \<rparr>))))"

text \<open>
  A whole run without another method of the object in between: \<open>post\<close> is the
  exchange, \<open>now\<close> the clock at the call and \<open>now'\<close> the clock when the response is
  handled.
\<close>

definition fetchAesKey ::
  "runtime \<Rightarrow> error + private_key \<Rightarrow> int \<Rightarrow> buffer \<Rightarrow> jsstring \<Rightarrow> (jsstring \<Rightarrow> json \<Rightarrow> json option)
     \<Rightarrow> int \<Rightarrow> bool \<Rightarrow> KeyClient \<Rightarrow> (error + jsstring) \<times> KeyClient" where
  "fetchAesKey rt pfx now randomBytes timestamp post now' force c =
     (case fetchAesKey_begin rt pfx now randomBytes timestamp force c of
        (Inl e, c') \<Rightarrow> (Inl e, c')
      | (Inr (Returned k), c') \<Rightarrow> (Inr k, c')
      | (Inr (AwaitPost url payload privateKey), c') \<Rightarrow>
          fetchAesKey_end rt now' privateKey (post url payload) c')"

definition getAesKey :: "KeyClient \<Rightarrow> jsstring option" where
  "getAesKey c = this_aesKey c"

definition forgetAesKey :: "KeyClient \<Rightarrow> KeyClient" where
  "forgetAesKey c =
     c\<lparr> this_aesKey := None, this_aesKeyFetchedAt := None, this_aesKeyContentJson := None \<rparr>"

definition isAesKeyValid :: "int \<Rightarrow> KeyClient \<Rightarrow> bool" where
  "isAesKeyValid now c =
     (case (truthy_string (this_aesKey c), this_aesKeyFetchedAt c) of
        (Some k, Some fetchedAt) \<Rightarrow>
          fetchedAt \<noteq> 0 \<and>
          real_of_int now / 1000 - real_of_int fetchedAt < real_of_int (this_aesKeyTtlSeconds c)
      | _ \<Rightarrow> False)"

definition getAesKeyContentJson :: "KeyClient \<Rightarrow> json option" where
  "getAesKeyContentJson c = this_aesKeyContentJson c"

definition getAesKeyFetchedAt :: "KeyClient \<Rightarrow> int option" where
  "getAesKeyFetchedAt c = this_aesKeyFetchedAt c"

definition setTaxpayerId :: "jsstring \<Rightarrow> KeyClient \<Rightarrow> KeyClient" where
  "setTaxpayerId taxpayerId c = c\<lparr>this_taxpayerId := taxpayerId\<rparr>"

definition getPrivateKey ::
  "error + private_key \<Rightarrow> KeyClient \<Rightarrow> (error + private_key) \<times> KeyClient" where
  "getPrivateKey pfx c =
     (case this_privateKey c of
        Some k \<Rightarrow> (Inr k, c)
      | None \<Rightarrow> loadPrivateKey pfx c)"

definition signData ::
  "runtime \<Rightarrow> error + private_key \<Rightarrow> jsstring \<Rightarrow> KeyClient \<Rightarrow> (error + jsstring) \<times> KeyClient" where
  "signData rt pfx data c =
     (case getPrivateKey pfx c of
        (Inl e, c') \<Rightarrow> (Inl e, c')
      | (Inr k, c') \<Rightarrow> (signRsaSha1 rt data k, c'))"

text \<open>
  The methods that can change the object, as steps: the cached session key is the
  triple of \<open>_aesKey\<close>, \<open>_aesKeyFetchedAt\<close> and \<open>_aesKeyContentJson\<close>.
\<close>

datatype operation =
    LoadPrivateKey "error + private_key"
  | FetchAesKeyBegin runtime "error + private_key" int buffer jsstring bool
  | FetchAesKeyEnd runtime int private_key "json option"
  | ForgetAesKey
  | SetTaxpayerId jsstring
  | SignData runtime "error + private_key" jsstring

fun call :: "operation \<Rightarrow> KeyClient \<Rightarrow> KeyClient" where
  "call (LoadPrivateKey pfx) c = snd (loadPrivateKey pfx c)"
| "call (FetchAesKeyBegin rt pfx now randomBytes timestamp force) c =
     snd (fetchAesKey_begin rt pfx now randomBytes timestamp force c)"
| "call (FetchAesKeyEnd rt now privateKey resp) c = snd (fetchAesKey_end rt now privateKey resp c)"
| "call ForgetAesKey c = forgetAesKey c"
| "call (SetTaxpayerId taxpayerId) c = setTaxpayerId taxpayerId c"
| "call (SignData rt pfx data) c = snd (signData rt pfx data c)"

definition cached_key :: "KeyClient \<Rightarrow> jsstring option \<times> int option \<times> json option" where
  "cached_key c = (this_aesKey c, this_aesKeyFetchedAt c, this_aesKeyContentJson c)"

definition key_state_whole :: "KeyClient \<Rightarrow> bool" where
  "key_state_whole c =
     ((this_aesKey c = None \<and> this_aesKeyFetchedAt c = None \<and> this_aesKeyContentJson c = None) \<or>
      (this_aesKey c \<noteq> None \<and> this_aesKeyFetchedAt c \<noteq> None \<and> this_aesKeyContentJson c \<noteq> None))"

section \<open>A small runtime for concrete evaluation\<close>

text \<open>
  Stand-ins for the library functions, used where a statement is evaluated on concrete
  data: a byte-wise shift as block cipher (with its inverse), a signature made of the
  letter S and the first two bytes signed, which fails for the empty PEM string as
  \<open>sign.sign('')\<close> does, the identity as RSA decryption, and a parser that knows three
  texts.
\<close>

definition test_runtime :: runtime where
  "test_runtime =
     \<lparr> aes_ecb_encrypt = (\<lambda>key data. map (\<lambda>b. b + 1) data),
       aes_ecb_decrypt = (\<lambda>key data. map (\<lambda>b. b - 1) data),
       gunzipSync = (\<lambda>data. None),
       rsa_sha1_sign = (\<lambda>key data. if key = PemString [] then None
                                   else Some (0x53 # take 2 data)),
       privateDecrypt = (\<lambda>key data. Some data),
       JSON_parse = (\<lambda>s. if s = js ''{}'' then Some (JObj [])
                           else if s = js ''1'' then Some (JNum 1)
                           else if s = js ''K'' then
                             Some (JObj [(js ''passowrdDes'', JStr (js ''UVVKRFJFVkdSMGc9''))])
                           else None),
       JSON_stringify = (\<lambda>v. if v = JObj [] then js ''{}'' else js ''1''),
       Buffer_from = (\<lambda>v. None) \<rparr>"

text \<open>The payload a suspended \<open>fetchAesKey\<close> is posting, if it is.\<close>

fun posted_payload :: "(error + fetch_progress) \<times> KeyClient \<Rightarrow> json option" where
  "posted_payload (Inr (AwaitPost url payload privateKey), c) = Some payload"
| "posted_payload other = None"

text \<open>A client and a clock for concrete evaluation, and a response of the key exchange.\<close>

definition test_client :: KeyClient where
  "test_client = new_KeyClient (js ''1000012345'') (js ''TCS001'') [] True (js ''1'')"

definition test_cached_client :: KeyClient where
  "test_cached_client =
     test_client\<lparr> this_privateKey := Some (KeyObject [1]),
                  this_aesKey := Some (js ''41424344454647484142434445464748''),
                  this_aesKeyFetchedAt := Some 1700000000,
                  this_aesKeyContentJson := Some (JObj []) \<rparr>"

text \<open>The client after a handshake that ended in the first second of 1970.\<close>

definition test_epoch_client :: KeyClient where
  "test_epoch_client =
     test_client\<lparr> this_privateKey := Some (KeyObject [1]),
                  this_aesKey := Some (js ''41424344454647484142434445464748''),
                  this_aesKeyFetchedAt := Some 0,
                  this_aesKeyContentJson :=
                    Some (JObj [(js ''passowrdDes'', JStr (js ''UVVKRFJFVkdSMGc9''))]) \<rparr>"

definition test_response :: json where
  "test_response =
     JObj [
       (js ''returnStateInfo'', JObj [
          (js ''returnCode'', JStr (js ''00'')),
          (js ''returnMessage'', JStr (js ''SUCCESS''))]),
       (js ''data'', JObj [(js ''content'', JStr (js ''Sw==''))])]"

section \<open>Evaluating string literals\<close>

lemma js_Nil: "js [] = []"
  by (simp add: js_def)

lemma js_Cons: "js (c # cs) = of_nat (of_char c) # js cs"
  by (simp add: js_def)

lemmas js_simps = js_Nil js_Cons

section \<open>Properties of the PKCS7 helpers\<close>

lemma pkcs7Pad_Buf:
  "pkcs7Pad (Buf x) = x @ replicate (16 - length x mod 16) (of_nat (16 - length x mod 16))"
  by (simp add: pkcs7Pad_def AES_BLOCK_SIZE_def buffer_alloc_def)

lemma unat_pad_byte: "n \<le> 16 \<Longrightarrow> unat (of_nat n :: byte) = n"
  by (simp add: unat_of_nat)

lemma slice_tail:
  "1 \<le> n \<Longrightarrow> slice d (- int n) (int (length d)) = drop (length d - n) d"
proof -
  assume "1 \<le> n"
  then have "slice_index (length d) (- int n) = length d - n"
    by (simp add: slice_index_def nat_diff_distrib')
  moreover have "slice_index (length d) (int (length d)) = length d"
    by (simp add: slice_index_def)
  ultimately show ?thesis by (simp add: slice_def)
qed

lemma slice_front:
  "n \<le> length d \<Longrightarrow> slice d 0 (int (length d) - int n) = take (length d - n) d"
proof -
  assume "n \<le> length d"
  then have "slice_index (length d) (int (length d) - int n) = length d - n"
    by (auto simp: slice_index_def nat_diff_distrib')
  moreover have "slice_index (length d) 0 = 0"
    by (simp add: slice_index_def)
  ultimately show ?thesis by (simp add: slice_def)
qed

lemma pkcs7Unpad_append:
  assumes "1 \<le> n" "n \<le> 16"
  shows "pkcs7Unpad (x @ replicate n (of_nat n)) = Inr x"
proof -
  from assms have l: "last (x @ replicate n (of_nat n :: byte)) = of_nat n"
    by (cases n) auto
  let ?d = "x @ replicate n (of_nat n :: byte)"
  from assms have t: "slice ?d (- int n) (int (length ?d)) = replicate n (of_nat n)"
    by (simp only: slice_tail) simp
  have f: "slice ?d 0 (int (length ?d) - int n) = x"
    by (subst slice_front) simp_all
  from assms show ?thesis
    unfolding pkcs7Unpad_def l Let_def unat_pad_byte[OF assms(2)] t f
    by (simp add: AES_BLOCK_SIZE_def buffer_alloc_def)
qed

lemma pkcs7Unpad_Inr:
  assumes "pkcs7Unpad d = Inr out"
  shows "1 \<le> unat (last d) \<and> unat (last d) \<le> 16 \<and> unat (last d) \<le> length d \<and>
         d = out @ replicate (unat (last d)) (last d)"
proof -
  let ?n = "unat (last d)"
  from assms have ne: "d \<noteq> []" and n1: "1 \<le> ?n" and n16: "?n \<le> 16"
    and pad: "slice d (- int ?n) (int (length d)) = replicate ?n (last d)"
    and out: "out = slice d 0 (int (length d) - int ?n)"
    by (auto simp: pkcs7Unpad_def AES_BLOCK_SIZE_def buffer_alloc_def Let_def split: if_splits)
  from pad have dr: "drop (length d - ?n) d = replicate ?n (last d)"
    by (simp only: slice_tail[OF n1])
  then have "length (drop (length d - ?n) d) = ?n" by simp
  then have len: "?n \<le> length d" by simp
  from out have tk: "out = take (length d - ?n) d"
    by (simp only: slice_front[OF len])
  have "d = take (length d - ?n) d @ drop (length d - ?n) d" by simp
  with dr tk have "d = out @ replicate ?n (last d)" by simp
  with n1 n16 len show ?thesis by blast
qed

lemma pkcs7Unpad_bad_length:
  "unat (last d) < 1 \<or> 16 < unat (last d) \<Longrightarrow> pkcs7Unpad d = Inl EncryptionError"
  by (simp add: pkcs7Unpad_def AES_BLOCK_SIZE_def Let_def)

lemma pkcs7Unpad_bad_bytes:
  assumes "drop (length d - unat (last d)) d \<noteq> replicate (unat (last d)) (last d)"
  shows "pkcs7Unpad d = Inl EncryptionError"
proof (cases "pkcs7Unpad d")
  case (Inl e)
  then show ?thesis
    by (auto simp: pkcs7Unpad_def Let_def split: if_splits)
next
  case (Inr out)
  from pkcs7Unpad_Inr[OF Inr] have "d = out @ replicate (unat (last d)) (last d)"
    and "unat (last d) \<le> length d" by simp_all
  then have "drop (length d - unat (last d)) d = replicate (unat (last d)) (last d)"
    by (metis append_eq_conv_conj length_append length_replicate add_diff_cancel_right')
  with assms show ?thesis by simp
qed

text \<open>
  C2: for every byte sequence \<open>x\<close> of length 0 to 64, unpadding the padded sequence
  gives \<open>x\<close> back; the padding is \<open>n\<close> bytes of value \<open>n\<close> with
  \<open>n = 16 - (length x mod 16)\<close>, so \<open>n\<close> is between 1 and 16, and a block-aligned
  input gets a full block of 16 bytes.
\<close>

theorem pkcs7_pad_unpad_roundtrip:
  assumes "length x \<le> 64"
  shows "pkcs7Unpad (pkcs7Pad (Buf x)) = Inr x \<and>
         (let n = 16 - length x mod 16 in
            pkcs7Pad (Buf x) = x @ replicate n (of_nat n) \<and> 1 \<le> n \<and> n \<le> 16 \<and>
            (length x mod 16 = 0 \<longrightarrow> n = 16))"
proof -
  let ?n = "16 - length x mod 16"
  have n: "1 \<le> ?n" "?n \<le> 16" by simp_all
  have "pkcs7Unpad (pkcs7Pad (Buf x)) = Inr x"
    unfolding pkcs7Pad_Buf by (rule pkcs7Unpad_append[OF n])
  then show ?thesis
    by (simp add: pkcs7Pad_Buf Let_def)
qed

theorem pkcs7_pad_unpad_roundtrip_witness:
  "length (replicate 16 (0x41 :: byte)) \<le> 64 \<and>
   length (replicate 16 (0x41 :: byte)) mod 16 = 0 \<and>
   pkcs7Unpad (pkcs7Pad (Buf (replicate 16 0x41))) = Inr (replicate 16 0x41) \<and>
   pkcs7Pad (Buf (replicate 16 0x41)) = replicate 16 0x41 @ replicate 16 16"
proof -
  have len: "length (replicate 16 (0x41 :: byte)) \<le> 64" by simp
  from pkcs7_pad_unpad_roundtrip [OF len] show ?thesis
    by (auto simp: Let_def)
qed

text \<open>
  C5: unpadding is strict. It fails with an EncryptionError when the pad length read
  from the last byte is outside 1..16, and when the last bytes are not all that
  length; so whenever it succeeds, the input was the output followed by \<open>n\<close> bytes of
  value \<open>n\<close>, with \<open>n\<close> between 1 and 16.
\<close>

theorem pkcs7Unpad_strict:
  "(unat (last d) < 1 \<or> 16 < unat (last d) \<longrightarrow> pkcs7Unpad d = Inl EncryptionError) \<and>
   (drop (length d - unat (last d)) d \<noteq> replicate (unat (last d)) (last d)
      \<longrightarrow> pkcs7Unpad d = Inl EncryptionError) \<and>
   (\<forall>out. pkcs7Unpad d = Inr out \<longrightarrow>
      (\<exists>n. 1 \<le> n \<and> n \<le> 16 \<and> d = out @ replicate n (of_nat n)))"
proof (intro conjI allI impI)
  fix out assume "pkcs7Unpad d = Inr out"
  from pkcs7Unpad_Inr[OF this]
  have "1 \<le> unat (last d) \<and> unat (last d) \<le> 16 \<and>
        d = out @ replicate (unat (last d)) (of_nat (unat (last d)))"
    by simp
  then show "\<exists>n. 1 \<le> n \<and> n \<le> 16 \<and> d = out @ replicate n (of_nat n)"
    by blast
qed (simp_all add: pkcs7Unpad_bad_length pkcs7Unpad_bad_bytes)

theorem pkcs7Unpad_strict_witness:
  "pkcs7Unpad [0x61, 0x62, 0x11 :: byte] = Inl EncryptionError \<and>
   pkcs7Unpad [0x61, 0x03, 0x02, 0x03 :: byte] = Inl EncryptionError \<and>
   (pkcs7Unpad [0x61, 0x02, 0x02 :: byte] = Inr [0x61] \<and>
    (\<exists>n. 1 \<le> n \<and> n \<le> 16 \<and> [0x61, 0x02, 0x02 :: byte] = [0x61] @ replicate n (of_nat n)))"
proof -
  have h1: "16 < unat (last [0x61, 0x62, 0x11 :: byte])"
    by simp
  have h2: "drop (length [0x61, 0x03, 0x02, 0x03 :: byte] - unat (last [0x61, 0x03, 0x02, 0x03 :: byte]))
              [0x61, 0x03, 0x02, 0x03 :: byte]
            \<noteq> replicate (unat (last [0x61, 0x03, 0x02, 0x03 :: byte])) (last [0x61, 0x03, 0x02, 0x03 :: byte])"
    by code_simp
  have h3: "pkcs7Unpad [0x61, 0x02, 0x02 :: byte] = Inr [0x61]"
    by code_simp
  show ?thesis
    using pkcs7Unpad_strict [of "[0x61, 0x62, 0x11 :: byte]"]
      pkcs7Unpad_strict [of "[0x61, 0x03, 0x02, 0x03 :: byte]"]
      pkcs7Unpad_strict [of "[0x61, 0x02, 0x02 :: byte]"] h1 h2 h3
    by blast
qed

section \<open>Base64 and UTF-8 round trips\<close>

lemma b64_value_char: "n < 64 \<Longrightarrow> b64_value (b64_char n) = Some n"
  by (auto simp: b64_value_def b64_char_def)

lemma b64_char_not_pad: "n < 64 \<Longrightarrow> b64_char n \<noteq> 61"
  by (auto simp: b64_char_def)

lemma b64_char_small: "b64_char n < 128"
  by (auto simp: b64_char_def)

lemma b64_sextets_char:
  "n < 64 \<Longrightarrow> b64_sextets (b64_char n # cs) = n # b64_sextets cs"
  by (simp add: b64_value_char b64_char_not_pad)

lemma b64_sextets_pad: "b64_sextets (61 # cs) = []"
  by simp

lemma b64_quad:
  fixes a b c :: nat
  assumes "a < 256" "b < 256" "c < 256"
  shows "a div 4 < 64" "a mod 4 * 16 + b div 16 < 64" "b mod 16 * 4 + c div 64 < 64"
    "c mod 64 < 64" "a mod 4 * 16 < 64" "b mod 16 * 4 < 64"
  using assms by auto

lemma b64_join:
  fixes a b c :: nat
  assumes "a < 256" "b < 256" "c < 256"
  shows "a div 4 * 4 + (a mod 4 * 16 + b div 16) div 16 = a"
    "(a mod 4 * 16 + b div 16) mod 16 * 16 + (b mod 16 * 4 + c div 64) div 4 = b"
    "(b mod 16 * 4 + c div 64) mod 4 * 64 + c mod 64 = c"
    "a div 4 * 4 + (a mod 4 * 16) div 16 = a"
    "(a mod 4 * 16 + b div 16) mod 16 * 16 + (b mod 16 * 4) div 4 = b"
  using assms by (simp_all add: div_mult2_eq[symmetric])

lemma b64_roundtrip_nat:
  "\<forall>x \<in> set bs. x < 256 \<Longrightarrow> b64_bytes (b64_sextets (b64_groups bs)) = bs"
proof (induction bs rule: b64_groups.induct)
  case 1
  show ?case by simp
next
  case (2 a)
  then have a: "a < 256" by simp
  note q = b64_quad[OF a a a] and j = b64_join[OF a a a]
  have "b64_sextets (b64_groups [a]) = [a div 4, a mod 4 * 16]"
    by (simp only: b64_groups.simps b64_sextets_char[OF q(1)] b64_sextets_char[OF q(5)]
        b64_sextets_pad)
  then show ?case by (simp only: b64_bytes.simps j(4))
next
  case (3 a b)
  then have a: "a < 256" and b: "b < 256" by simp_all
  note q = b64_quad[OF a b b] and j = b64_join[OF a b b]
  have "b64_sextets (b64_groups [a, b]) = [a div 4, a mod 4 * 16 + b div 16, b mod 16 * 4]"
    by (simp only: b64_groups.simps b64_sextets_char[OF q(1)] b64_sextets_char[OF q(2)]
        b64_sextets_char[OF q(6)] b64_sextets_pad)
  then show ?case by (simp only: b64_bytes.simps j(4) j(1) j(5))
next
  case (4 a b c r)
  then have a: "a < 256" and b: "b < 256" and c: "c < 256"
    and r: "\<forall>x \<in> set r. x < 256" by simp_all
  note q = b64_quad[OF a b c] and j = b64_join[OF a b c]
  have "b64_sextets (b64_groups (a # b # c # r)) =
          a div 4 # (a mod 4 * 16 + b div 16) # (b mod 16 * 4 + c div 64) # c mod 64
            # b64_sextets (b64_groups r)"
    by (simp only: b64_groups.simps append.simps b64_sextets_char[OF q(1)]
        b64_sextets_char[OF q(2)] b64_sextets_char[OF q(3)] b64_sextets_char[OF q(4)])
  then show ?case
    by (simp only: b64_bytes.simps j(1) j(2) j(3) 4(1)[OF r] append.simps)
qed

lemma b64_groups_small: "\<forall>x \<in> set (b64_groups bs). x < 128"
  by (induction bs rule: b64_groups.induct) (simp_all add: b64_char_small)

lemma b64_groups_nonempty: "bs \<noteq> [] \<Longrightarrow> b64_groups bs \<noteq> []"
  by (induction bs rule: b64_groups.induct) simp_all

lemma map_unat_of_nat_byte:
  "\<forall>x \<in> set xs. x < 256 \<Longrightarrow> map unat (map of_nat xs :: byte list) = xs"
  by (induction xs) (simp_all add: unat_of_nat)

lemma map_unat_of_nat_unit:
  "\<forall>x \<in> set xs. x < 65536 \<Longrightarrow> map unat (map of_nat xs :: 16 word list) = xs"
  by (induction xs) (simp_all add: unat_of_nat)

lemma map_of_nat_unat: "map of_nat (map unat xs) = xs"
  by (induction xs) simp_all

lemma unat_byte_small: "\<forall>x \<in> set (map unat (buf :: byte list)). x < 256"
proof -
  have "unat b < 256" for b :: byte
    using unsigned_less[of b] by simp
  then show ?thesis by simp
qed

lemma map_low_byte_of_nat:
  "\<forall>x \<in> set xs. x < 128 \<Longrightarrow>
     map (\<lambda>c. unat c mod 256) (map of_nat xs :: 16 word list) = xs"
  by (induction xs) (simp_all add: unat_of_nat)

lemma base64_roundtrip: "base64_decode (base64_encode buf) = buf"
  unfolding base64_decode_def base64_encode_def
  by (simp only: map_low_byte_of_nat[OF b64_groups_small] b64_roundtrip_nat[OF unat_byte_small]
      map_of_nat_unat)

lemma base64_encode_nonempty: "buf \<noteq> [] \<Longrightarrow> base64_encode buf \<noteq> []"
  using b64_groups_nonempty[of "map unat buf"] by (simp add: base64_encode_def)

lemma mod_64_range:
  fixes x :: nat
  assumes "k * 64 \<le> x" "x < k * 64 + m" "m \<le> 64"
  shows "x mod 64 < m"
proof -
  from assms(1) obtain d where d: "x = k * 64 + d" by (metis le_add_diff_inverse)
  with assms(2) have dm: "d < m" by simp
  with assms(3) have "d < 64" by simp
  have "x mod 64 = d mod 64" unfolding d by (simp only: mod_mult_self3)
  with \<open>d < 64\<close> dm show ?thesis by simp
qed

lemma split3:
  fixes c :: nat
  shows "c div 4096 * 4096 + c div 64 mod 64 * 64 + c mod 64 = c"
proof -
  have a: "c div 64 * 64 + c mod 64 = c" by simp
  have b: "c div 64 div 64 * 64 + c div 64 mod 64 = c div 64" by simp
  have d: "c div 64 div 64 = c div 4096" by (simp add: div_mult2_eq[symmetric])
  from a b d show ?thesis by linarith
qed

lemma split4:
  fixes c :: nat
  shows "c div 262144 * 262144 + c div 4096 mod 64 * 4096 + c div 64 mod 64 * 64 + c mod 64 = c"
proof -
  have a: "c div 4096 * 4096 + c div 64 mod 64 * 64 + c mod 64 = c" by (rule split3)
  have b: "c div 4096 div 64 * 64 + c div 4096 mod 64 = c div 4096" by simp
  have d: "c div 4096 div 64 = c div 262144" by (simp add: div_mult2_eq[symmetric])
  from a b d show ?thesis by linarith
qed

lemma second_ok_three:
  assumes "0xE0 \<le> b" "b \<le> 0xEF" "0x80 \<le> c1" "c1 \<le> 0xBF"
    and "b = 0xE0 \<Longrightarrow> 0xA0 \<le> c1" and "b = 0xED \<Longrightarrow> c1 \<le> 0x9F"
  shows "second_ok b c1"
  using assms by (auto simp: second_ok_def)

lemma second_ok_four:
  assumes "0xF0 \<le> b" "b \<le> 0xF4" "0x80 \<le> c1" "c1 \<le> 0xBF"
    and "b = 0xF0 \<Longrightarrow> 0x90 \<le> c1" and "b = 0xF4 \<Longrightarrow> c1 \<le> 0x8F"
  shows "second_ok b c1"
  using assms by (auto simp: second_ok_def)

lemma cont_range:
  fixes x :: nat
  shows "0x80 \<le> 0x80 + x mod 64" "0x80 + x mod 64 \<le> 0xBF"
proof -
  show "0x80 \<le> 0x80 + x mod 64" by simp
  have "x mod 64 < 64" by simp
  then show "0x80 + x mod 64 \<le> 0xBF" by linarith
qed

lemma utf8_one:
  assumes "c < 0x80"
  shows "utf8_scalars (utf8_bytes c @ rest) = c # utf8_scalars rest"
  using assms by (simp add: utf8_bytes_def)

lemma utf8_two:
  assumes "0x80 \<le> c" "c < 0x800"
  shows "utf8_scalars (utf8_bytes c @ rest) = c # utf8_scalars rest"
proof -
  let ?b = "0xC0 + c div 64" and ?c1 = "0x80 + c mod 64"
  have b: "\<not> ?b < 0x80" "0xC2 \<le> ?b" "?b \<le> 0xDF"
    using assms by simp_all
  have c1: "is_cont ?c1" by (simp add: is_cont_def)
  have v: "(?b - 0xC0) * 64 + (?c1 - 0x80) = c" by simp
  have "utf8_bytes c @ rest = ?b # ?c1 # rest"
    using assms by (simp add: utf8_bytes_def)
  then show ?thesis
    using b c1 v by (simp del: add_diff_cancel_left' add_diff_cancel_right')
qed

lemma utf8_three:
  assumes "0x800 \<le> c" "c < 0x10000" "\<not> (0xD800 \<le> c \<and> c \<le> 0xDFFF)"
  shows "utf8_scalars (utf8_bytes c @ rest) = c # utf8_scalars rest"
proof -
  let ?b = "0xE0 + c div 4096" and ?c1 = "0x80 + c div 64 mod 64" and ?c2 = "0x80 + c mod 64"
  have b: "\<not> ?b < 0x80" "\<not> (0xC2 \<le> ?b \<and> ?b \<le> 0xDF)" "0xE0 \<le> ?b" "?b \<le> 0xEF"
    using assms by simp_all
  have lo: "?b = 0xE0 \<Longrightarrow> 0xA0 \<le> ?c1"
  proof -
    assume "?b = 0xE0"
    then have "c < 4096" by simp
    with assms(1) have "32 \<le> c div 64" "c div 64 < 64" by simp_all
    then show ?thesis by simp
  qed
  have hi: "?b = 0xED \<Longrightarrow> ?c1 \<le> 0x9F"
  proof -
    assume "?b = 0xED"
    then have "c div 4096 = 13" by simp
    then have "53248 \<le> c" "c < 57344" by simp_all
    with assms(3) have "c < 55296" by simp
    then have "c div 64 < 13 * 64 + 32" by simp
    moreover from \<open>53248 \<le> c\<close> have "13 * 64 \<le> c div 64" by simp
    ultimately have "c div 64 mod 64 < 32" by (intro mod_64_range[of 13 _ 32]) simp_all
    then show ?thesis by simp
  qed
  have c1: "second_ok ?b ?c1"
    by (rule second_ok_three[OF b(3) b(4) cont_range lo hi])
  have c2: "is_cont ?c2" by (simp add: is_cont_def)
  have "c div 4096 * 4096 + c div 64 mod 64 * 64 + c mod 64 = c"
    by (rule split3)
  then have v: "(?b - 0xE0) * 4096 + (?c1 - 0x80) * 64 + (?c2 - 0x80) = c" by simp
  have "utf8_bytes c @ rest = ?b # ?c1 # ?c2 # rest"
    using assms by (simp add: utf8_bytes_def)
  then show ?thesis
    using b c1 c2 v by (simp del: add_diff_cancel_left' add_diff_cancel_right')
qed

lemma utf8_four:
  assumes "0x10000 \<le> c" "c < 0x110000"
  shows "utf8_scalars (utf8_bytes c @ rest) = c # utf8_scalars rest"
proof -
  let ?b = "0xF0 + c div 262144" and ?c1 = "0x80 + c div 4096 mod 64"
    and ?c2 = "0x80 + c div 64 mod 64" and ?c3 = "0x80 + c mod 64"
  have b: "\<not> ?b < 0x80" "\<not> (0xC2 \<le> ?b \<and> ?b \<le> 0xDF)" "\<not> (0xE0 \<le> ?b \<and> ?b \<le> 0xEF)"
    "0xF0 \<le> ?b" "?b \<le> 0xF4"
    using assms by simp_all
  have lo: "?b = 0xF0 \<Longrightarrow> 0x90 \<le> ?c1"
  proof -
    assume "?b = 0xF0"
    then have "c < 262144" by simp
    with assms(1) have "16 \<le> c div 4096" "c div 4096 < 64" by simp_all
    then show ?thesis by simp
  qed
  have hi: "?b = 0xF4 \<Longrightarrow> ?c1 \<le> 0x8F"
  proof -
    assume "?b = 0xF4"
    then have "c div 262144 = 4" by simp
    then have "1048576 \<le> c" by simp
    then have "4 * 64 \<le> c div 4096" by simp
    moreover from assms(2) have "c div 4096 < 4 * 64 + 16" by simp
    ultimately have "c div 4096 mod 64 < 16" by (intro mod_64_range[of 4 _ 16]) simp_all
    then show ?thesis by simp
  qed
  have c1: "second_ok ?b ?c1"
    by (rule second_ok_four[OF b(4) b(5) cont_range lo hi])
  have c2: "is_cont ?c2" "is_cont ?c3" by (simp_all add: is_cont_def)
  have "c div 262144 * 262144 + c div 4096 mod 64 * 4096 + c div 64 mod 64 * 64 + c mod 64 = c"
    by (rule split4)
  then have v: "(?b - 0xF0) * 262144 + (?c1 - 0x80) * 4096 + (?c2 - 0x80) * 64 + (?c3 - 0x80) = c"
    by simp
  have "utf8_bytes c @ rest = ?b # ?c1 # ?c2 # ?c3 # rest"
    using assms by (simp add: utf8_bytes_def)
  then show ?thesis
    using b c1 c2 v by (simp del: add_diff_cancel_left' add_diff_cancel_right')
qed

lemma utf8_scalars_bytes:
  assumes "is_scalar c"
  shows "utf8_scalars (utf8_bytes c @ rest) = c # utf8_scalars rest"
proof -
  consider "c < 0x80" | "0x80 \<le> c \<and> c < 0x800" | "0x800 \<le> c \<and> c < 0x10000"
    | "0x10000 \<le> c" by linarith
  then show ?thesis
  proof cases
    case 1 then show ?thesis by (rule utf8_one)
  next
    case 2 then show ?thesis by (simp add: utf8_two)
  next
    case 3 with assms show ?thesis by (simp add: utf8_three is_scalar_def)
  next
    case 4 with assms show ?thesis by (simp add: utf8_four is_scalar_def)
  qed
qed

lemma utf8_bytes_small:
  assumes "is_scalar c"
  shows "\<forall>x \<in> set (utf8_bytes c). x < 256"
proof -
  from assms have top: "c < 0x110000" by (simp add: is_scalar_def)
  have m: "0x80 + x mod 64 < 256" for x :: nat
    using cont_range(2)[of x] by linarith
  consider "c < 0x80" | "0x80 \<le> c \<and> c < 0x800" | "0x800 \<le> c \<and> c < 0x10000"
    | "0x10000 \<le> c" by linarith
  then show ?thesis
  proof cases
    case 1
    then show ?thesis by (simp add: utf8_bytes_def)
  next
    case 2
    then have r: "0x80 \<le> c" "c < 0x800" by simp_all
    from r(2) have "0xC0 + c div 64 < 256" by simp
    with r m show ?thesis by (simp add: utf8_bytes_def)
  next
    case 3
    then have r: "0x800 \<le> c" "c < 0x10000" by simp_all
    from r(2) have "0xE0 + c div 4096 < 256" by simp
    with r m show ?thesis by (simp add: utf8_bytes_def)
  next
    case 4
    from top have "0xF0 + c div 262144 < 256" by simp
    with 4 m show ?thesis by (simp add: utf8_bytes_def)
  qed
qed

lemma utf8_scalars_concat:
  "list_all is_scalar cs \<Longrightarrow> utf8_scalars (concat (map utf8_bytes cs)) = cs"
  by (induction cs) (simp_all add: utf8_scalars_bytes)

lemma utf8_concat_small:
  "list_all is_scalar cs \<Longrightarrow> \<forall>x \<in> set (concat (map utf8_bytes cs)). x < 256"
  using utf8_bytes_small by (induction cs) auto

lemma utf16_pair:
  assumes "is_high_surrogate u" "is_low_surrogate v"
  shows "is_scalar (0x10000 + (u - 0xD800) * 0x400 + (v - 0xDC00))"
    "utf16_units (0x10000 + (u - 0xD800) * 0x400 + (v - 0xDC00)) = [u, v]"
proof -
  define a where "a = u - 0xD800"
  define b where "b = v - 0xDC00"
  from assms have ur: "0xD800 \<le> u" "u \<le> 0xDBFF" and vr: "0xDC00 \<le> v" "v \<le> 0xDFFF"
    by (simp_all add: is_high_surrogate_def is_low_surrogate_def)
  from ur have u: "u = 0xD800 + a" and a: "a < 0x400"
    unfolding a_def by linarith+
  from vr have v: "v = 0xDC00 + b" and b: "b < 0x400"
    unfolding b_def by linarith+
  have c: "0x10000 + (u - 0xD800) * 0x400 + (v - 0xDC00) = 0x10000 + (a * 0x400 + b)"
    by (simp add: u v)
  from a b have "a * 0x400 + b < 0x100000" by simp
  then show "is_scalar (0x10000 + (u - 0xD800) * 0x400 + (v - 0xDC00))"
    unfolding c by (simp add: is_scalar_def)
  from b have "(a * 0x400 + b) div 0x400 = a" "(a * 0x400 + b) mod 0x400 = b" by simp_all
  then show "utf16_units (0x10000 + (u - 0xD800) * 0x400 + (v - 0xDC00)) = [u, v]"
    unfolding c by (simp add: utf16_units_def u v)
qed

lemma utf16_single:
  assumes "\<not> is_high_surrogate u" "\<not> is_low_surrogate u" "u < 65536"
  shows "is_scalar u" "utf16_units u = [u]"
  using assms
  by (auto simp: is_scalar_def utf16_units_def is_high_surrogate_def is_low_surrogate_def)

lemma code_points_well_formed:
  "well_formed_units us \<Longrightarrow> \<forall>x \<in> set us. x < 65536 \<Longrightarrow>
     list_all is_scalar (code_points us) \<and> concat (map utf16_units (code_points us)) = us"
proof (induction us rule: code_points.induct)
  case 1
  show ?case by simp
next
  case (2 u)
  then show ?case by (simp add: utf16_single)
next
  case (3 u v us)
  show ?case
  proof (cases "is_high_surrogate u")
    case True
    with 3(3) have v: "is_low_surrogate v" and w: "well_formed_units us" by simp_all
    from 3(4) have s: "\<forall>x \<in> set us. x < 65536" by simp
    from 3(1)[OF _ w s] True v show ?thesis by (simp add: utf16_pair)
  next
    case False
    with 3(3) have l: "\<not> is_low_surrogate u" and w: "well_formed_units (v # us)" by simp_all
    from 3(4) have s: "\<forall>x \<in> set (v # us). x < 65536" and u: "u < 65536" by simp_all
    from 3(2)[OF _ w s] False l u show ?thesis by (simp add: utf16_single)
  qed
qed

lemma unat_unit_small: "\<forall>x \<in> set (map unat (s :: jsstring)). x < 65536"
proof -
  have "unat u < 65536" for u :: "16 word"
    using unsigned_less[of u] by simp
  then show ?thesis by simp
qed

lemma utf8_roundtrip:
  assumes "well_formed s"
  shows "utf8_decode (utf8_encode s) = s"
proof -
  from assms have w: "well_formed_units (map unat s)" by (simp add: well_formed_def)
  note cp = code_points_well_formed[OF w unat_unit_small]
  from cp have sc: "list_all is_scalar (code_points (map unat s))" by simp
  from cp have u16: "concat (map utf16_units (code_points (map unat s))) = map unat s" by simp
  show ?thesis
    unfolding utf8_decode_def utf8_encode_def
    by (simp only: map_unat_of_nat_byte[OF utf8_concat_small[OF sc]] utf8_scalars_concat[OF sc]
        u16 map_of_nat_unat)
qed

section \<open>Properties of the key handshake\<close>

lemma slice_take: "slice xs 0 (int n) = take n xs"
  by (cases "n \<le> length xs") (simp_all add: slice_def slice_index_def min_def)

lemma slice_take16: "slice xs 0 16 = take 16 xs"
  using slice_take[of xs 16] by simp

lemma valid_key_length_iff: "valid_key_length n \<longleftrightarrow> n = 16 \<or> n = 24 \<or> n = 32"
  by (simp add: valid_key_length_def)

text \<open>
  C3: the key made in \<open>fetchAesKey\<close> from the decrypted candidate. A candidate of 8
  bytes is concatenated with itself and cut to 16 bytes; one of 16, 24 or 32 bytes is
  used as it is; any other is cut to its first 16 bytes; and an EncryptionError is
  raised when the result is not 16, 24 or 32 bytes long, which happens exactly for a
  candidate shorter than 16 bytes and not 8 bytes long.
\<close>

theorem aesKey_of_candidate_policy:
  "(length c = 8 \<longrightarrow> aesKey_of_candidate c = Inr (take 16 (c @ c)) \<and> take 16 (c @ c) = c @ c) \<and>
   (length c = 16 \<or> length c = 24 \<or> length c = 32 \<longrightarrow> aesKey_of_candidate c = Inr c) \<and>
   (length c \<noteq> 8 \<and> length c \<noteq> 16 \<and> length c \<noteq> 24 \<and> length c \<noteq> 32 \<longrightarrow>
      aesKey_of_candidate c =
        (if length (take 16 c) = 16 \<or> length (take 16 c) = 24 \<or> length (take 16 c) = 32
         then Inr (take 16 c) else Inl EncryptionError)) \<and>
   ((\<exists>e. aesKey_of_candidate c = Inl e) \<longleftrightarrow> length c < 16 \<and> length c \<noteq> 8) \<and>
   (\<forall>e. aesKey_of_candidate c = Inl e \<longrightarrow> e = EncryptionError)"
  by (auto simp: aesKey_of_candidate_def slice_take16 valid_key_length_iff Let_def min_def)

theorem aesKey_of_candidate_policy_witness:
  "aesKey_of_candidate [1, 2, 3, 4, 5, 6, 7, 8] =
     Inr [1, 2, 3, 4, 5, 6, 7, 8, 1, 2, 3, 4, 5, 6, 7, 8] \<and>
   aesKey_of_candidate (replicate 24 7) = Inr (replicate 24 7) \<and>
   aesKey_of_candidate (replicate 20 7) = Inr (replicate 16 7) \<and>
   aesKey_of_candidate [1, 2, 3, 4, 5] = Inl EncryptionError"
  using aesKey_of_candidate_policy [of "[1, 2, 3, 4, 5, 6, 7, 8]"]
    aesKey_of_candidate_policy [of "replicate 24 7"]
    aesKey_of_candidate_policy [of "replicate 20 7"]
    aesKey_of_candidate_policy [of "[1, 2, 3, 4, 5]"]
  by simp

lemma buildUnencryptedRequest_empty:
  "buildUnencryptedRequest rt randomBytes timestamp (JArr []) interfaceCode tin deviceNo brn
     privateKey taxpayerId =
   Inr (envelope [] [] (js ''0'') (js ''1'') (js ''0'')
     (buildGlobalInfo randomBytes timestamp interfaceCode tin deviceNo brn
        (js ''admin'') (js ''32.5825'') (js ''0.3476'') taxpayerId))"
  by (simp add: buildUnencryptedRequest_def)

lemma loadPrivateKey_cached: "cached_key (snd (loadPrivateKey pfx c)) = cached_key c"
  by (simp add: loadPrivateKey_def cached_key_def split: option.splits sum.splits)

lemma loadPrivateKey_result:
  "loadPrivateKey pfx c = (r, c') \<Longrightarrow> cached_key c' = cached_key c"
  using loadPrivateKey_cached[of pfx c] by simp

lemma fetchAesKey_begin_cases:
  "fetchAesKey_begin rt pfx now rnd ts force c = (r, c') \<Longrightarrow>
     (\<exists>k. r = Inr (Returned k) \<and> c' = c) \<or>
     (\<exists>r'. loadPrivateKey pfx c = (r', c'))"
  unfolding fetchAesKey_begin_def Let_def
  by (cases "loadPrivateKey pfx c") (auto split: option.splits sum.splits)

lemma fetchAesKey_begin_cached:
  "fetchAesKey_begin rt pfx now rnd ts force c = (r, c') \<Longrightarrow> cached_key c' = cached_key c"
  using fetchAesKey_begin_cases loadPrivateKey_result by blast

lemma fetchAesKey_end_cases:
  "(\<exists>e. fetchAesKey_end rt now pk resp c = (Inl e, c)) \<or>
   (\<exists>k cj. fetchAesKey_end rt now pk resp c =
      (Inr (hex_encode k),
       c\<lparr> this_aesKey := Some (hex_encode k), this_aesKeyFetchedAt := Some (now div 1000),
          this_aesKeyContentJson := Some cj \<rparr>))"
proof (cases resp)
  case None
  then show ?thesis by (simp add: fetchAesKey_end_def)
next
  case (Some respJson)
  show ?thesis
  proof (cases "get_prop (Some respJson) (js ''returnStateInfo'')")
    case (Inl e)
    with Some show ?thesis by (simp add: fetchAesKey_end_def)
  next
    case (Inr rsi)
    show ?thesis
    proof (cases "extract_aes_key rt pk respJson")
      case (Inl e)
      with Some Inr show ?thesis by (simp add: fetchAesKey_end_def Let_def)
    next
      case r: (Inr p)
      obtain k cj where "p = (k, cj)" by (cases p)
      with Some Inr r show ?thesis by (auto simp: fetchAesKey_end_def Let_def)
    qed
  qed
qed

lemma fetchAesKey_end_error:
  "fetchAesKey_end rt now pk resp c = (Inl e, c') \<Longrightarrow> c' = c"
  using fetchAesKey_end_cases[of rt now pk resp c] by auto

lemma fetchAesKey_end_whole:
  "key_state_whole c \<Longrightarrow> key_state_whole (snd (fetchAesKey_end rt now pk resp c))"
  using fetchAesKey_end_cases[of rt now pk resp c]
  by (auto simp: key_state_whole_def)

lemma key_state_whole_cong:
  "cached_key c' = cached_key c \<Longrightarrow> key_state_whole c' = key_state_whole c"
  by (simp add: cached_key_def key_state_whole_def)

lemma getPrivateKey_cached: "cached_key (snd (getPrivateKey pfx c)) = cached_key c"
  by (cases "this_privateKey c") (simp_all add: getPrivateKey_def loadPrivateKey_cached)

lemma signData_cached: "cached_key (snd (signData rt pfx data c)) = cached_key c"
proof -
  obtain r c' where g: "getPrivateKey pfx c = (r, c')" by (cases "getPrivateKey pfx c")
  with getPrivateKey_cached[of pfx c] have "cached_key c' = cached_key c" by simp
  with g show ?thesis by (cases r) (simp_all add: signData_def)
qed

lemma call_whole:
  assumes w: "key_state_whole c"
  shows "key_state_whole (call m c)"
proof (cases m)
  case (LoadPrivateKey pfx)
  have "key_state_whole (snd (loadPrivateKey pfx c))"
    using key_state_whole_cong[OF loadPrivateKey_cached] w by simp
  then show ?thesis unfolding LoadPrivateKey by simp
next
  case (FetchAesKeyBegin rt pfx now rnd ts force)
  obtain r c' where e: "fetchAesKey_begin rt pfx now rnd ts force c = (r, c')"
    by (cases "fetchAesKey_begin rt pfx now rnd ts force c")
  from key_state_whole_cong[OF fetchAesKey_begin_cached[OF e]] w have "key_state_whole c'"
    by simp
  then show ?thesis unfolding FetchAesKeyBegin by (simp add: e)
next
  case (FetchAesKeyEnd rt now pk resp)
  show ?thesis unfolding FetchAesKeyEnd using fetchAesKey_end_whole[OF w] by simp
next
  case ForgetAesKey
  show ?thesis unfolding ForgetAesKey by (simp add: forgetAesKey_def key_state_whole_def)
next
  case (SetTaxpayerId t)
  show ?thesis unfolding SetTaxpayerId using w by (simp add: setTaxpayerId_def key_state_whole_def)
next
  case (SignData rt pfx data)
  have "key_state_whole (snd (signData rt pfx data c))"
    using key_state_whole_cong[OF signData_cached] w by simp
  then show ?thesis unfolding SignData by simp
qed

lemma new_KeyClient_whole: "key_state_whole (new_KeyClient tin deviceNo brn sandbox taxpayerId)"
  by (simp add: new_KeyClient_def key_state_whole_def)

lemma fold_call_whole: "key_state_whole c \<Longrightarrow> key_state_whole (fold call ms c)"
  by (induction ms arbitrary: c) (simp_all add: call_whole)

lemma fetchAesKey_error:
  assumes "fetchAesKey rt pfx now rnd ts post now' force c = (Inl e, c')"
  shows "cached_key c' = cached_key c"
proof -
  obtain r c1 where b: "fetchAesKey_begin rt pfx now rnd ts force c = (r, c1)"
    by (cases "fetchAesKey_begin rt pfx now rnd ts force c")
  have c1: "cached_key c1 = cached_key c" by (rule fetchAesKey_begin_cached[OF b])
  show ?thesis
  proof (cases r)
    case (Inl e1)
    with assms b c1 show ?thesis by (simp add: fetchAesKey_def)
  next
    case (Inr p)
    show ?thesis
    proof (cases p)
      case (Returned k)
      with assms b Inr show ?thesis by (simp add: fetchAesKey_def)
    next
      case (AwaitPost url payload pk)
      with assms b Inr have "fetchAesKey_end rt now' pk (post url payload) c1 = (Inl e, c')"
        by (simp add: fetchAesKey_def)
      from fetchAesKey_end_error[OF this] c1 show ?thesis by simp
    qed
  qed
qed

text \<open>
  C6: the cached session key is wholly absent or wholly present: the key, the time it
  was fetched and the decoded content are set together and cleared together. A new
  client has none of them, every operation keeps the property, and a run of
  \<open>fetchAesKey\<close> that raises an error (after the response, or as a whole) leaves the
  three fields as they were, as does everything \<open>fetchAesKey\<close> does before the POST:
  only a handshake that succeeds writes them.
\<close>

theorem cached_key_all_or_nothing:
  "key_state_whole (new_KeyClient tin deviceNo brn sandbox taxpayerId) \<and>
   (key_state_whole c \<longrightarrow> key_state_whole (call m c)) \<and>
   key_state_whole (fold call ms (new_KeyClient tin deviceNo brn sandbox taxpayerId)) \<and>
   (\<forall>r c'. fetchAesKey_begin rt pfx now randomBytes timestamp force c = (r, c')
       \<longrightarrow> cached_key c' = cached_key c) \<and>
   (\<forall>e c'. fetchAesKey_end rt now' privateKey resp c = (Inl e, c')
       \<longrightarrow> cached_key c' = cached_key c) \<and>
   (\<forall>e c'. fetchAesKey rt pfx now randomBytes timestamp post now' force c = (Inl e, c')
       \<longrightarrow> cached_key c' = cached_key c)"
proof (intro conjI allI impI)
  show "key_state_whole (new_KeyClient tin deviceNo brn sandbox taxpayerId)"
    by (rule new_KeyClient_whole)
  show "key_state_whole (fold call ms (new_KeyClient tin deviceNo brn sandbox taxpayerId))"
    by (rule fold_call_whole[OF new_KeyClient_whole])
next
  assume "key_state_whole c" then show "key_state_whole (call m c)" by (rule call_whole)
next
  fix r c' assume "fetchAesKey_begin rt pfx now randomBytes timestamp force c = (r, c')"
  then show "cached_key c' = cached_key c" by (rule fetchAesKey_begin_cached)
next
  fix e c' assume "fetchAesKey_end rt now' privateKey resp c = (Inl e, c')"
  from fetchAesKey_end_error[OF this] show "cached_key c' = cached_key c" by simp
next
  fix e c' assume "fetchAesKey rt pfx now randomBytes timestamp post now' force c = (Inl e, c')"
  then show "cached_key c' = cached_key c" by (rule fetchAesKey_error)
qed

theorem cached_key_all_or_nothing_witness:
  "key_state_whole test_cached_client \<and>
   key_state_whole (call ForgetAesKey test_cached_client) \<and>
   fetchAesKey test_runtime (Inl AuthenticationError) 1700000100000 (replicate 16 0xAB)
     (js ''2023-11-15 01:15:00'') (\<lambda>url payload. None) 1700000101000 True test_cached_client
     = (Inl APIError, test_cached_client) \<and>
   cached_key test_cached_client =
     (Some (js ''41424344454647484142434445464748''), Some 1700000000, Some (JObj []))"
proof -
  have w: "key_state_whole test_cached_client"
    by (simp add: test_cached_client_def key_state_whole_def)
  have run: "fetchAesKey test_runtime (Inl AuthenticationError) 1700000100000 (replicate 16 0xAB)
     (js ''2023-11-15 01:15:00'') (\<lambda>url payload. None) 1700000101000 True test_cached_client
     = (Inl APIError, test_cached_client)"
    by (simp add: fetchAesKey_def fetchAesKey_begin_def fetchAesKey_end_def loadPrivateKey_def
        buildUnencryptedRequest_empty test_cached_client_def Let_def)
  have ck: "cached_key test_cached_client =
     (Some (js ''41424344454647484142434445464748''), Some 1700000000, Some (JObj []))"
    by (simp add: cached_key_def test_cached_client_def)
  from cached_key_all_or_nothing [of "js ''1''" "js ''1''" "[]" True "js ''1''" test_cached_client
      ForgetAesKey "[]" test_runtime "Inl AuthenticationError" 1700000100000 "replicate 16 0xAB"
      "js ''2023-11-15 01:15:00''" True 1700000101000 "KeyObject [1]" None "\<lambda>url payload. None"]
    w run ck
  show ?thesis by blast
qed

text \<open>
  C8 (as amended): when \<open>force\<close> is false, a non-empty key is cached with a fetch
  time other than 0 (the two operands of the test
  \<open>this._aesKey && this._aesKeyFetchedAt\<close>, which takes the time 0 for no time) and
  \<open>now - fetchedAt < ttl\<close> with \<open>now = Date.now() / 1000\<close>, then \<open>fetchAesKey\<close>
  returns the cached key before it reaches the POST, whatever the exchange would answer,
  and the object is unchanged.
\<close>

theorem fetchAesKey_uses_fresh_cache:
  assumes "\<not> force"
    and "truthy_string (this_aesKey c) = Some k"
    and "this_aesKeyFetchedAt c = Some fetchedAt" and "fetchedAt \<noteq> 0"
    and "real_of_int now / 1000 - real_of_int fetchedAt < real_of_int (this_aesKeyTtlSeconds c)"
  shows "fetchAesKey_begin rt pfx now randomBytes timestamp force c = (Inr (Returned k), c) \<and>
         fetchAesKey rt pfx now randomBytes timestamp post now' force c = (Inr k, c) \<and>
         this_aesKey c = Some k"
proof -
  have b: "fetchAesKey_begin rt pfx now randomBytes timestamp force c = (Inr (Returned k), c)"
    using assms by (simp add: fetchAesKey_begin_def)
  have "this_aesKey c = Some k"
    using assms(2) by (cases "this_aesKey c") (simp_all split: if_splits)
  with b show ?thesis by (simp add: fetchAesKey_def)
qed

theorem fetchAesKey_uses_fresh_cache_witness:
  "fetchAesKey_begin test_runtime (Inl AuthenticationError) 1700082799999 [] [] False
     test_cached_client
     = (Inr (Returned (js ''41424344454647484142434445464748'')), test_cached_client) \<and>
   fetchAesKey test_runtime (Inl AuthenticationError) 1700082799999 [] []
     (\<lambda>url payload. Some test_response) 1700082800001 False test_cached_client
     = (Inr (js ''41424344454647484142434445464748''), test_cached_client)"
proof -
  have 1: "\<not> False" by simp
  have 2: "truthy_string (this_aesKey test_cached_client)
             = Some (js ''41424344454647484142434445464748'')"
    by (simp add: test_cached_client_def js_def)
  have 3: "this_aesKeyFetchedAt test_cached_client = Some 1700000000"
    by (simp add: test_cached_client_def)
  have 4: "(1700000000::int) \<noteq> 0" by simp
  have 5: "real_of_int 1700082799999 / 1000 - real_of_int 1700000000
             < real_of_int (this_aesKeyTtlSeconds test_cached_client)"
    by (simp add: test_cached_client_def test_client_def new_KeyClient_def)
  from fetchAesKey_uses_fresh_cache [OF 1 2 3 4 5] show ?thesis by simp
qed

lemma loadPrivateKey_config:
  assumes "loadPrivateKey pfx c = (r, c')"
  shows "this_tin c' = this_tin c \<and> this_deviceNo c' = this_deviceNo c \<and>
         this_brn c' = this_brn c \<and> this_taxpayerId c' = this_taxpayerId c \<and>
         getEndpoint c' = getEndpoint c"
  using assms
  by (auto simp: loadPrivateKey_def getEndpoint_def split: option.splits sum.splits)

lemma cache_miss:
  assumes "force \<or> \<not> isAesKeyValid now c"
  shows "(if \<not> force then
            (case (truthy_string (this_aesKey c), this_aesKeyFetchedAt c) of
               (Some k, Some fetchedAt) \<Rightarrow>
                 if fetchedAt \<noteq> 0 \<and>
                    real_of_int now / 1000 - real_of_int fetchedAt
                      < real_of_int (this_aesKeyTtlSeconds c)
                 then Some k else None
             | _ \<Rightarrow> None)
          else None) = None"
  using assms by (auto simp: isAesKeyValid_def split: option.splits)

lemma fetchAesKey_begin_miss:
  assumes "force \<or> \<not> isAesKeyValid now c"
    and "loadPrivateKey pfx c = (Inr privateKey, c')"
  shows "fetchAesKey_begin rt pfx now randomBytes timestamp force c =
           (Inr (AwaitPost (getEndpoint c)
                   (JObj [
                      (js ''data'', JObj [
                         (js ''content'', JStr []),
                         (js ''signature'', JStr []),
                         (js ''dataDescription'', JObj [
                            (js ''codeType'', JStr (js ''0'')),
                            (js ''encryptCode'', JStr (js ''1'')),
                            (js ''zipCode'', JStr (js ''0''))])]),
                      (js ''globalInfo'',
                         buildGlobalInfo randomBytes timestamp (js ''T104'') (this_tin c)
                           (this_deviceNo c) (this_brn c) (js ''admin'') (js ''32.5825'')
                           (js ''0.3476'') (this_taxpayerId c)),
                      (js ''returnStateInfo'', JObj [
                         (js ''returnCode'', JStr []),
                         (js ''returnMessage'', JStr [])])])
                   privateKey),
            c')"
  unfolding fetchAesKey_begin_def cache_miss[OF assms(1)]
  using loadPrivateKey_config[OF assms(2)]
  by (simp add: assms(2) buildUnencryptedRequest_empty envelope_def Let_def)

text \<open>
  C7 (as amended): when \<open>fetchAesKey\<close> misses the cache (it is forced, or no valid key
  is cached) and the private key loads, it suspends at the POST to the key-exchange
  endpoint (the sandbox or the production URL) of an unencrypted request envelope
  (\<open>codeType '0'\<close>, \<open>encryptCode '1'\<close>, \<open>zipCode '0'\<close>) whose \<open>globalInfo\<close> has the
  fixed interface code T104, the client's tax identifier as \<open>tin\<close> and its device number
  as \<open>deviceNo\<close>. The handshake has no content, so \<open>data.content\<close> and
  \<open>data.signature\<close> are both the empty string: the loaded private key is handed to the
  builder, which signs only a non-empty content.
\<close>

theorem fetchAesKey_handshake_request:
  assumes "force \<or> \<not> isAesKeyValid now c"
    and "loadPrivateKey pfx c = (Inr privateKey, c')"
  shows "fetchAesKey_begin rt pfx now randomBytes timestamp force c =
           (Inr (AwaitPost
                   (if this_sandbox c
                    then js ''https://efristest.ura.go.ug/efrisws/ws/taapp/getInformation''
                    else js ''https://efrisws.ura.go.ug/ws/taapp/getInformation'')
                   (JObj [
                      (js ''data'', JObj [
                         (js ''content'', JStr []),
                         (js ''signature'', JStr []),
                         (js ''dataDescription'', JObj [
                            (js ''codeType'', JStr (js ''0'')),
                            (js ''encryptCode'', JStr (js ''1'')),
                            (js ''zipCode'', JStr (js ''0''))])]),
                      (js ''globalInfo'', JObj [
                         (js ''appId'', JStr (js ''AP04'')),
                         (js ''version'', JStr (js ''1.1.20191201'')),
                         (js ''dataExchangeId'', JStr (toUpperCase (hex_encode randomBytes))),
                         (js ''interfaceCode'', JStr (js ''T104'')),
                         (js ''requestCode'', JStr (js ''TP'')),
                         (js ''requestTime'', JStr timestamp),
                         (js ''responseCode'', JStr (js ''TA'')),
                         (js ''userName'', JStr (js ''admin'')),
                         (js ''deviceMAC'', JStr (js ''FFFFFFFFFFFF'')),
                         (js ''deviceNo'', JStr (this_deviceNo c)),
                         (js ''tin'', JStr (this_tin c)),
                         (js ''brn'', JStr (this_brn c)),
                         (js ''taxpayerID'', JStr (if this_taxpayerId c \<noteq> [] then this_taxpayerId c else js ''1'')),
                         (js ''longitude'', JStr (js ''32.5825'')),
                         (js ''latitude'', JStr (js ''0.3476'')),
                         (js ''agentType'', JStr (js ''0'')),
                         (js ''extendField'', JObj [
                            (js ''responseDateFormat'', JStr (js ''dd/MM/yyyy'')),
                            (js ''responseTimeFormat'', JStr (js ''dd/MM/yyyy HH:mm:ss'')),
                            (js ''referenceNo'', JStr []),
                            (js ''operatorName'', JStr (js ''admin'')),
                            (js ''offlineInvoiceException'', JObj [
                               (js ''errorCode'', JStr []),
                               (js ''errorMsg'', JStr [])])])]),
                      (js ''returnStateInfo'', JObj [
                         (js ''returnCode'', JStr []),
                         (js ''returnMessage'', JStr [])])])
                   privateKey),
            c')"
  unfolding fetchAesKey_begin_miss[OF assms]
  by (simp add: buildGlobalInfo_def getEndpoint_def T104_ENDPOINT_TEST_def T104_ENDPOINT_PROD_def)

lemma test_exchange_id:
  "toUpperCase (hex_encode [0xAB, 0xAB, 0xAB, 0xAB, 0xAB, 0xAB, 0xAB, 0xAB, 0xAB, 0xAB, 0xAB, 0xAB, 0xAB, 0xAB, 0xAB, 0xAB])
     = js ''ABABABABABABABABABABABABABABABAB''"
  by (simp add: toUpperCase_def hex_encode_def hex_digit_def js_simps)

theorem fetchAesKey_handshake_request_witness:
  "\<not> isAesKeyValid 1700000100000 test_client \<and>
   loadPrivateKey (Inr (KeyObject [1])) test_client =
     (Inr (KeyObject [1]), test_client\<lparr>this_privateKey := Some (KeyObject [1])\<rparr>) \<and>
   fetchAesKey_begin test_runtime (Inr (KeyObject [1])) 1700000100000
      [0xAB, 0xAB, 0xAB, 0xAB, 0xAB, 0xAB, 0xAB, 0xAB, 0xAB, 0xAB, 0xAB, 0xAB, 0xAB, 0xAB, 0xAB, 0xAB]
      (js ''2023-11-16 05:15:00'') False test_client =
     (Inr (AwaitPost (js ''https://efristest.ura.go.ug/efrisws/ws/taapp/getInformation'')
                   (JObj [
                      (js ''data'', JObj [
                         (js ''content'', JStr []),
                         (js ''signature'', JStr []),
                         (js ''dataDescription'', JObj [
                            (js ''codeType'', JStr (js ''0'')),
                            (js ''encryptCode'', JStr (js ''1'')),
                            (js ''zipCode'', JStr (js ''0''))])]),
                      (js ''globalInfo'', JObj [
                         (js ''appId'', JStr (js ''AP04'')),
                         (js ''version'', JStr (js ''1.1.20191201'')),
                         (js ''dataExchangeId'', JStr (js ''ABABABABABABABABABABABABABABABAB'')),
                         (js ''interfaceCode'', JStr (js ''T104'')),
                         (js ''requestCode'', JStr (js ''TP'')),
                         (js ''requestTime'', JStr (js ''2023-11-16 05:15:00'')),
                         (js ''responseCode'', JStr (js ''TA'')),
                         (js ''userName'', JStr (js ''admin'')),
                         (js ''deviceMAC'', JStr (js ''FFFFFFFFFFFF'')),
                         (js ''deviceNo'', JStr (js ''TCS001'')),
                         (js ''tin'', JStr (js ''1000012345'')),
                         (js ''brn'', JStr ([])),
                         (js ''taxpayerID'', JStr (js ''1'')),
                         (js ''longitude'', JStr (js ''32.5825'')),
                         (js ''latitude'', JStr (js ''0.3476'')),
                         (js ''agentType'', JStr (js ''0'')),
                         (js ''extendField'', JObj [
                            (js ''responseDateFormat'', JStr (js ''dd/MM/yyyy'')),
                            (js ''responseTimeFormat'', JStr (js ''dd/MM/yyyy HH:mm:ss'')),
                            (js ''referenceNo'', JStr []),
                            (js ''operatorName'', JStr (js ''admin'')),
                            (js ''offlineInvoiceException'', JObj [
                               (js ''errorCode'', JStr []),
                               (js ''errorMsg'', JStr [])])])]),
                      (js ''returnStateInfo'', JObj [
                         (js ''returnCode'', JStr []),
                         (js ''returnMessage'', JStr [])])])
                   (KeyObject [1])),
      test_client\<lparr>this_privateKey := Some (KeyObject [1])\<rparr>)"
proof -
  have m: "\<not> isAesKeyValid 1700000100000 test_client"
    by (simp add: isAesKeyValid_def test_client_def new_KeyClient_def)
  then have m': "False \<or> \<not> isAesKeyValid 1700000100000 test_client" by simp
  have l: "loadPrivateKey (Inr (KeyObject [1])) test_client =
     (Inr (KeyObject [1]), test_client\<lparr>this_privateKey := Some (KeyObject [1])\<rparr>)"
    by (simp add: loadPrivateKey_def test_client_def new_KeyClient_def)
  have f: "this_tin test_client = js ''1000012345''" "this_deviceNo test_client = js ''TCS001''"
    "this_brn test_client = []" "this_taxpayerId test_client = js ''1''"
    "this_sandbox test_client = True"
    by (simp_all add: test_client_def new_KeyClient_def)
  have t: "(if js ''1'' \<noteq> [] then js ''1'' else js ''1'') = js ''1''" by simp
  note r = fetchAesKey_handshake_request [OF m' l, of test_runtime
      "[0xAB, 0xAB, 0xAB, 0xAB, 0xAB, 0xAB, 0xAB, 0xAB, 0xAB, 0xAB, 0xAB, 0xAB, 0xAB, 0xAB, 0xAB, 0xAB]"
      "js ''2023-11-16 05:15:00''", unfolded f test_exchange_id t if_True]
  show ?thesis
    by (intro conjI) (rule m, rule l, rule r)
qed

theorem handshake_signature_counterexample:
  "this_privateKey (snd (fetchAesKey_begin test_runtime (Inr (KeyObject [1])) 1700000100000
      (replicate 16 0xAB) (js ''2023-11-16 05:15:00'') False test_client))
     = Some (KeyObject [1]) \<and>
   opt_prop (opt_prop (posted_payload (fetchAesKey_begin test_runtime (Inr (KeyObject [1]))
      1700000100000 (replicate 16 0xAB) (js ''2023-11-16 05:15:00'') False test_client))
      (js ''data'')) (js ''signature'') = Some (JStr []) \<and>
   signRsaSha1 test_runtime [] (KeyObject [1]) = Inr (js ''Uw=='')"
proof -
  have m: "False \<or> \<not> isAesKeyValid 1700000100000 test_client"
    by (simp add: isAesKeyValid_def test_client_def new_KeyClient_def)
  have l: "loadPrivateKey (Inr (KeyObject [1])) test_client =
     (Inr (KeyObject [1]), test_client\<lparr>this_privateKey := Some (KeyObject [1])\<rparr>)"
    by (simp add: loadPrivateKey_def test_client_def new_KeyClient_def)
  have g: "signRsaSha1 test_runtime [] (KeyObject [1]) = Inr (js ''Uw=='')"
    by (simp add: signRsaSha1_def test_runtime_def base64_encode_def b64_char_def js_simps
        utf8_encode_def)
  have d: "js ''data'' \<noteq> js ''globalInfo''" "js ''signature'' \<noteq> js ''content''"
    by (simp_all add: js_simps)
  show ?thesis
    unfolding fetchAesKey_begin_miss [OF m l]
    by (simp add: g d)
qed

subsection \<open>A handshake on concrete data\<close>

text \<open>
  The response of the key exchange carries the base64 text of a content whose
  \<open>passowrdDes\<close> decrypts to the base64 text of the 8 bytes \<open>ABCDEFGH\<close>: the key
  is these bytes twice, cached as 32 hexadecimal digits with the time in seconds.
\<close>

lemma test_extract:
  "extract_aes_key test_runtime (KeyObject [1]) test_response =
     Inr ([0x41, 0x42, 0x43, 0x44, 0x45, 0x46, 0x47, 0x48, 0x41, 0x42, 0x43, 0x44, 0x45, 0x46, 0x47, 0x48],
          JObj [(js ''passowrdDes'', JStr (js ''UVVKRFJFVkdSMGc9''))])"
proof -
  have c: "opt_prop (opt_prop (Some test_response) (js ''data'')) (js ''content'')
             = Some (JStr (js ''Sw==''))"
    by (simp add: test_response_def js_simps)
  have b1: "base64_decode (js ''Sw=='') = [0x4B]"
    by (simp add: base64_decode_def b64_value_def js_simps)
  have u1: "utf8_decode [0x4B] = js ''K''"
    by (simp add: utf8_decode_def utf16_units_def js_simps)
  have p: "JSON_parse test_runtime (js ''K'') =
             Some (JObj [(js ''passowrdDes'', JStr (js ''UVVKRFJFVkdSMGc9''))])"
    by (simp add: test_runtime_def js_simps)
  have g: "get_prop (Some (JObj [(js ''passowrdDes'', JStr (js ''UVVKRFJFVkdSMGc9''))]))
             (js ''passowrdDes'') = Inr (Some (JStr (js ''UVVKRFJFVkdSMGc9'')))"
    by simp
  have b2: "base64_decode (js ''UVVKRFJFVkdSMGc9'') =
              [0x51, 0x55, 0x4A, 0x44, 0x52, 0x45, 0x56, 0x47, 0x52, 0x30, 0x67, 0x3D]"
    by (simp add: base64_decode_def b64_value_def js_simps)
  have d: "privateDecrypt test_runtime k x = Some x" for k x
    by (simp add: test_runtime_def)
  have u2: "utf8_decode [0x51, 0x55, 0x4A, 0x44, 0x52, 0x45, 0x56, 0x47, 0x52, 0x30, 0x67, 0x3D]
              = js ''QUJDREVGR0g=''"
    by (simp add: utf8_decode_def utf16_units_def js_simps)
  have b3: "base64_decode (js ''QUJDREVGR0g='') = [0x41, 0x42, 0x43, 0x44, 0x45, 0x46, 0x47, 0x48]"
    by (simp add: base64_decode_def b64_value_def js_simps)
  have n: "aesKey_of_candidate [0x41, 0x42, 0x43, 0x44, 0x45, 0x46, 0x47, 0x48] =
             Inr [0x41, 0x42, 0x43, 0x44, 0x45, 0x46, 0x47, 0x48,
                  0x41, 0x42, 0x43, 0x44, 0x45, 0x46, 0x47, 0x48]"
    by (simp add: aesKey_of_candidate_def slice_take16 valid_key_length_iff)
  have t: "truthy (Some (JStr (js ''Sw=='')))" "truthy (Some (JStr (js ''UVVKRFJFVkdSMGc9'')))"
    by (simp_all add: js_simps)
  show ?thesis
    unfolding extract_aes_key_def c Let_def
    using t by (simp add: buffer_from_base64_def b1 u1 p g b2 d u2 b3 n)
qed


lemma fetchAesKey_end_test_response:
  "fetchAesKey_end test_runtime now (KeyObject [1]) (Some test_response) c =
     (Inr (js ''41424344454647484142434445464748''),
      c\<lparr> this_aesKey := Some (js ''41424344454647484142434445464748''),
         this_aesKeyFetchedAt := Some (now div 1000),
         this_aesKeyContentJson :=
           Some (JObj [(js ''passowrdDes'', JStr (js ''UVVKRFJFVkdSMGc9''))]) \<rparr>)"
proof -
  have r: "get_prop (Some test_response) (js ''returnStateInfo'') =
             Inr (Some (JObj [(js ''returnCode'', JStr (js ''00'')),
                              (js ''returnMessage'', JStr (js ''SUCCESS''))]))"
    by (simp add: test_response_def js_simps)
  have m: "nullish (opt_prop (nullish (Some (JObj [(js ''returnCode'', JStr (js ''00'')),
                              (js ''returnMessage'', JStr (js ''SUCCESS''))])) (Some (JObj [])))
             (js ''returnMessage'')) (Some (JStr [])) = Some (JStr (js ''SUCCESS''))"
    by (simp add: js_simps)
  have h: "hex_encode [0x41, 0x42, 0x43, 0x44, 0x45, 0x46, 0x47, 0x48,
                       0x41, 0x42, 0x43, 0x44, 0x45, 0x46, 0x47, 0x48]
             = js ''41424344454647484142434445464748''"
    by (simp add: hex_encode_def hex_digit_def js_simps)
  show ?thesis
    unfolding fetchAesKey_end_def option.case r sum.case Let_def m test_extract
    by (simp add: h)
qed

text \<open>
  A handshake that ends 999 milliseconds after the epoch caches its key with the time 0,
  and the next call, five seconds later and not forced, does the handshake again.
\<close>

theorem fetchAesKey_epoch_counterexample:
  "fetchAesKey_end test_runtime 999 (KeyObject [1]) (Some test_response)
     (test_client\<lparr>this_privateKey := Some (KeyObject [1])\<rparr>)
     = (Inr (js ''41424344454647484142434445464748''), test_epoch_client) \<and>
   this_aesKey test_epoch_client = Some (js ''41424344454647484142434445464748'') \<and>
   this_aesKeyFetchedAt test_epoch_client = Some 0 \<and>
   real_of_int 5000 / 1000 - real_of_int 0 < real_of_int (this_aesKeyTtlSeconds test_epoch_client) \<and>
   fetchAesKey_begin test_runtime (Inl AuthenticationError) 5000 [] (js ''1970-01-01 03:00:05'')
     False test_epoch_client
     = (Inr (AwaitPost T104_ENDPOINT_TEST
               (envelope [] [] (js ''0'') (js ''1'') (js ''0'')
                  (buildGlobalInfo [] (js ''1970-01-01 03:00:05'') (js ''T104'')
                     (js ''1000012345'') (js ''TCS001'') [] (js ''admin'') (js ''32.5825'')
                     (js ''0.3476'') (js ''1'')))
               (KeyObject [1])),
        test_epoch_client)"
proof -
  have e: "fetchAesKey_end test_runtime 999 (KeyObject [1]) (Some test_response)
     (test_client\<lparr>this_privateKey := Some (KeyObject [1])\<rparr>)
     = (Inr (js ''41424344454647484142434445464748''), test_epoch_client)"
    unfolding fetchAesKey_end_test_response by (simp add: test_epoch_client_def)
  have k: "this_aesKey test_epoch_client = Some (js ''41424344454647484142434445464748'')"
    and f: "this_aesKeyFetchedAt test_epoch_client = Some 0"
    and t: "real_of_int 5000 / 1000 - real_of_int 0
              < real_of_int (this_aesKeyTtlSeconds test_epoch_client)"
    by (simp_all add: test_epoch_client_def test_client_def new_KeyClient_def)
  have m: "False \<or> \<not> isAesKeyValid 5000 test_epoch_client"
    by (simp add: isAesKeyValid_def test_epoch_client_def)
  have l: "loadPrivateKey (Inl AuthenticationError) test_epoch_client =
             (Inr (KeyObject [1]), test_epoch_client)"
    by (simp add: loadPrivateKey_def test_epoch_client_def)
  have c: "this_tin test_epoch_client = js ''1000012345''"
    "this_deviceNo test_epoch_client = js ''TCS001''"
    "this_brn test_epoch_client = []" "this_taxpayerId test_epoch_client = js ''1''"
    "getEndpoint test_epoch_client = T104_ENDPOINT_TEST"
    by (simp_all add: test_epoch_client_def test_client_def new_KeyClient_def getEndpoint_def)
  have b: "fetchAesKey_begin test_runtime (Inl AuthenticationError) 5000 []
     (js ''1970-01-01 03:00:05'') False test_epoch_client
     = (Inr (AwaitPost T104_ENDPOINT_TEST
               (envelope [] [] (js ''0'') (js ''1'') (js ''0'')
                  (buildGlobalInfo [] (js ''1970-01-01 03:00:05'') (js ''T104'')
                     (js ''1000012345'') (js ''TCS001'') [] (js ''admin'') (js ''32.5825'')
                     (js ''0.3476'') (js ''1'')))
               (KeyObject [1])),
        test_epoch_client)"
    unfolding fetchAesKey_begin_miss [OF m l] c by (simp add: envelope_def)
  from e k f t b show ?thesis by blast
qed

section \<open>Properties of encryption and envelopes\<close>

text \<open>
  C10: for an empty ciphertext \<open>decryptAesEcb\<close> returns the empty string at once, for
  every \<open>encryptCode\<close> and \<open>zipCode\<close> and with or without a key: no gzip check, no
  key check, no unpadding.
\<close>

theorem decryptAesEcb_empty:
  "decryptAesEcb rt [] key encryptCode zipCode = Inr []"
  by (simp add: decryptAesEcb_def)

lemma length_pkcs7Pad: "length (pkcs7Pad data) mod 16 = 0"
proof -
  have "(n + (16 - n mod 16)) mod 16 = 0" for n :: nat
    by presburger
  then show ?thesis
    by (simp add: pkcs7Pad_def AES_BLOCK_SIZE_def buffer_alloc_def Let_def)
qed

lemma encryptAesEcb_valid:
  assumes "valid_key_length (length (normalizeAesKey key))"
  shows "encryptAesEcb rt plaintext key =
           Inr (base64_encode (aes_ecb_encrypt rt (normalizeAesKey key) (pkcs7Pad (Str plaintext))))"
  using assms by (simp add: encryptAesEcb_def cipher_run_def length_pkcs7Pad Let_def)

lemma test_key_valid: "valid_key_length (length (normalizeAesKey (js ''0123456789abcdef'')))"
proof -
  have k: "normalizeAesKey (js ''0123456789abcdef'') = utf8_encode (js ''0123456789abcdef'')"
    by (simp add: normalizeAesKey_def is_hex_string_def hex_value_def hex_decode_def
        valid_key_length_def js_simps Let_def)
  have l: "length (utf8_encode (js ''0123456789abcdef'')) = 16"
    by (simp add: utf8_encode_def utf8_bytes_def is_high_surrogate_def is_low_surrogate_def
        js_simps)
  show ?thesis by (simp add: k l valid_key_length_def)
qed

lemma buildEncryptedRequest_valid:
  assumes "valid_key_length (length (normalizeAesKey aesKey))"
  shows "buildEncryptedRequest rt randomBytes timestamp content aesKey interfaceCode tin
           deviceNo brn privateKey taxpayerId =
         (case rsa_sha1_sign rt privateKey
                 (utf8_encode (base64_encode (aes_ecb_encrypt rt (normalizeAesKey aesKey)
                    (pkcs7Pad (Str (JSON_stringify rt content)))))) of
            None \<Rightarrow> Inl NodeError
          | Some signature \<Rightarrow>
              Inr (envelope
                     (base64_encode (aes_ecb_encrypt rt (normalizeAesKey aesKey)
                        (pkcs7Pad (Str (JSON_stringify rt content)))))
                     (base64_encode signature) (js ''1'') (js ''2'') (js ''0'')
                     (buildGlobalInfo randomBytes timestamp interfaceCode tin deviceNo brn
                        (js ''admin'') (js ''32.5825'') (js ''0.3476'') taxpayerId)))"
  by (simp add: buildEncryptedRequest_def encryptAesEcb_valid[OF assms] signRsaSha1_def Let_def
      split: option.split)

text \<open>
  C9 (as amended): for every payload and every key whose normalized length is 16, 24 or
  32 bytes, \<open>buildEncryptedRequest\<close> serializes the payload, encrypts the text with the
  key in ECB mode, and asks for the RSA signature of the UTF-8 bytes of the encrypted
  base64 text (not of the plaintext). Where the signing returns, the result is the
  envelope with the encrypted text as content, the signature in base64, and the data
  description \<open>{codeType: '1', encryptCode: '2', zipCode: '0'}\<close>; where the signing
  throws, its error is the result and no envelope is built.
\<close>

theorem buildEncryptedRequest_envelope:
  assumes "valid_key_length (length (normalizeAesKey aesKey))"
  shows "(let jsonContent = JSON_stringify rt content;
              encrypted = base64_encode (aes_ecb_encrypt rt (normalizeAesKey aesKey)
                            (pkcs7Pad (Str jsonContent)))
          in encryptAesEcb rt jsonContent aesKey = Inr encrypted \<and>
             buildEncryptedRequest rt randomBytes timestamp content aesKey interfaceCode tin
               deviceNo brn privateKey taxpayerId =
               (case rsa_sha1_sign rt privateKey (utf8_encode encrypted) of
                  None \<Rightarrow> Inl NodeError
                | Some signature \<Rightarrow>
                    Inr (JObj [
                      (js ''data'', JObj [
                         (js ''content'', JStr encrypted),
                         (js ''signature'', JStr (base64_encode signature)),
                         (js ''dataDescription'', JObj [
                            (js ''codeType'', JStr (js ''1'')),
                            (js ''encryptCode'', JStr (js ''2'')),
                            (js ''zipCode'', JStr (js ''0''))])]),
                      (js ''globalInfo'',
                         buildGlobalInfo randomBytes timestamp interfaceCode tin deviceNo brn
                           (js ''admin'') (js ''32.5825'') (js ''0.3476'') taxpayerId),
                      (js ''returnStateInfo'', JObj [
                         (js ''returnCode'', JStr []),
                         (js ''returnMessage'', JStr [])])])))"
  unfolding Let_def buildEncryptedRequest_valid[OF assms] encryptAesEcb_valid[OF assms]
  by (simp add: envelope_def split: option.split)

lemma test_encrypt_empty_object:
  "base64_encode (aes_ecb_encrypt test_runtime (normalizeAesKey (js ''0123456789abcdef''))
     (pkcs7Pad (Str (JSON_stringify test_runtime (JObj []))))) = js ''fH4PDw8PDw8PDw8PDw8PDw==''"
proof -
  have s: "JSON_stringify test_runtime (JObj []) = js ''{}''"
    by (simp add: test_runtime_def)
  have u: "utf8_encode (js ''{}'') = [0x7b, 0x7d]"
    by (simp add: utf8_encode_def utf8_bytes_def is_high_surrogate_def
        is_low_surrogate_def js_simps)
  have r: "replicate 14 (14 :: byte) = [14, 14, 14, 14, 14, 14, 14, 14, 14, 14, 14, 14, 14, 14]"
    by (simp add: eval_nat_numeral)
  have p: "pkcs7Pad (Str (js ''{}'')) =
             [0x7b, 0x7d, 14, 14, 14, 14, 14, 14, 14, 14, 14, 14, 14, 14, 14, 14]"
    by (simp add: pkcs7Pad_def u r AES_BLOCK_SIZE_def buffer_alloc_def Let_def)
  have c: "aes_ecb_encrypt test_runtime key
             [0x7b, 0x7d, 14, 14, 14, 14, 14, 14, 14, 14, 14, 14, 14, 14, 14, 14] =
           [0x7c, 0x7e, 15, 15, 15, 15, 15, 15, 15, 15, 15, 15, 15, 15, 15, 15]" for key
    by (simp add: test_runtime_def)
  have e: "base64_encode [0x7c, 0x7e, 15, 15, 15, 15, 15, 15, 15, 15, 15, 15, 15, 15, 15, 15] =
           js ''fH4PDw8PDw8PDw8PDw8PDw==''"
    by (simp add: base64_encode_def b64_char_def js_simps)
  show ?thesis unfolding s p c e by (rule refl)
qed

lemma test_sign:
  "rsa_sha1_sign test_runtime (KeyObject [1]) (utf8_encode (js ''fH4PDw8PDw8PDw8PDw8PDw==''))
     = Some [0x53, 0x66, 0x48]"
  "rsa_sha1_sign test_runtime (PemString []) data = None"
  "base64_encode [0x53, 0x66, 0x48] = js ''U2ZI''"
  by (simp_all add: test_runtime_def utf8_encode_def utf8_bytes_def is_high_surrogate_def
      is_low_surrogate_def base64_encode_def b64_char_def js_simps)

theorem buildEncryptedRequest_envelope_witness:
  "valid_key_length (length (normalizeAesKey (js ''0123456789abcdef''))) \<and>
   buildEncryptedRequest test_runtime [] (js ''2023-11-15 01:15:00'') (JObj [])
     (js ''0123456789abcdef'') (js ''T109'') (js ''1000012345'') (js ''TCS001'') []
     (KeyObject [1]) (js ''1'') =
     Inr (JObj [
                      (js ''data'', JObj [
                         (js ''content'', JStr (js ''fH4PDw8PDw8PDw8PDw8PDw=='')),
                         (js ''signature'', JStr (js ''U2ZI'')),
                         (js ''dataDescription'', JObj [
                            (js ''codeType'', JStr (js ''1'')),
                            (js ''encryptCode'', JStr (js ''2'')),
                            (js ''zipCode'', JStr (js ''0''))])]),
                      (js ''globalInfo'',
                         buildGlobalInfo [] (js ''2023-11-15 01:15:00'') (js ''T109'')
                           (js ''1000012345'') (js ''TCS001'') [] (js ''admin'')
                           (js ''32.5825'') (js ''0.3476'') (js ''1'')),
                      (js ''returnStateInfo'', JObj [
                         (js ''returnCode'', JStr []),
                         (js ''returnMessage'', JStr [])])])"
proof -
  note t = buildEncryptedRequest_envelope [OF test_key_valid, of test_runtime "JObj []"
      "[]" "js ''2023-11-15 01:15:00''" "js ''T109''" "js ''1000012345''"
      "js ''TCS001''" "[]" "KeyObject [1]" "js ''1''",
      unfolded Let_def test_encrypt_empty_object test_sign option.case]
  show ?thesis
    by (intro conjI) (rule test_key_valid, rule conjunct2[OF t])
qed

theorem buildEncryptedRequest_sign_error_counterexample:
  "valid_key_length (length (normalizeAesKey (js ''0123456789abcdef''))) \<and>
   buildEncryptedRequest test_runtime [] (js ''2023-11-15 01:15:00'') (JObj [])
     (js ''0123456789abcdef'') (js ''T109'') (js ''1000012345'') (js ''TCS001'') []
     (PemString []) (js ''1'') = Inl NodeError"
proof -
  have "buildEncryptedRequest test_runtime [] (js ''2023-11-15 01:15:00'') (JObj [])
     (js ''0123456789abcdef'') (js ''T109'') (js ''1000012345'') (js ''TCS001'') []
     (PemString []) (js ''1'') = Inl NodeError"
    unfolding buildEncryptedRequest_valid[OF test_key_valid] test_sign by simp
  with test_key_valid show ?thesis by (rule conjI)
qed

lemma opt_prop_Some_obj:
  "opt_prop (Some v) name = Some x \<Longrightarrow> \<exists>kvs. v = JObj kvs \<and> map_of kvs name = Some x"
  by (cases v) simp_all

lemma or_else_Some: "truthy (Some v) \<Longrightarrow> or_else (Some v) d = v"
  by (simp add: or_else_def)

lemma set_data_content_content:
  assumes "opt_prop (Some responseJson) (js ''data'') = Some dataSection"
    and "opt_prop (Some dataSection) (js ''content'') = Some old"
  shows "opt_prop (opt_prop (Some (set_data_content responseJson v)) (js ''data'')) (js ''content'')
           = Some v"
proof -
  from opt_prop_Some_obj[OF assms(1)] obtain kvs where
    r: "responseJson = JObj kvs" by blast
  from opt_prop_Some_obj[OF assms(2)] obtain ds where
    d: "dataSection = JObj ds" by blast
  show ?thesis
    using assms(1)
    unfolding set_data_content_def assms(1) r d
    by (simp add: update_conv')
qed

lemma unwrapResponse_codeType1_steps:
  assumes "opt_prop (Some responseJson) (js ''data'') = Some dataSection"
    and "opt_prop (Some dataSection) (js ''content'') = Some (JStr s)" and "s \<noteq> []"
    and "opt_prop (Some dataSection) (js ''dataDescription'') = Some dataDesc"
    and "opt_prop (Some dataDesc) (js ''codeType'') = Some (JStr (js ''1''))"
  shows "unwrapResponse rt responseJson aesKey =
          (case decode_content rt (JStr s) aesKey (JStr (js ''1''))
                  (or_else (opt_prop (Some dataDesc) (js ''encryptCode'')) (JStr (js ''0'')))
                  (or_else (opt_prop (Some dataDesc) (js ''zipCode'')) (JStr (js ''0''))) of
             Inl e \<Rightarrow> Inl EncryptionError
           | Inr decodedContent \<Rightarrow> Inr (set_data_content responseJson decodedContent))"
proof -
  from opt_prop_Some_obj[OF assms(1)] obtain kvs where
    r: "responseJson = JObj kvs" and rk: "map_of kvs (js ''data'') = Some dataSection" by blast
  from opt_prop_Some_obj[OF assms(2)] obtain ds where
    d: "dataSection = JObj ds" by blast
  from opt_prop_Some_obj[OF assms(5)] obtain dd where
    dd: "dataDesc = JObj dd" by blast
  have g: "get_prop (Some responseJson) (js ''data'') = Inr (Some dataSection)"
    by (simp add: r rk)
  have t1: "or_else (Some dataSection) (JObj []) = dataSection"
    by (simp add: or_else_def d)
  have t2: "or_else (Some (JStr s)) (JStr []) = JStr s"
    using assms(3) by (simp add: or_else_def)
  have t3: "or_else (Some dataDesc) (JObj []) = dataDesc"
    by (simp add: or_else_def dd)
  have t4: "or_else (Some (JStr (js ''1''))) (JStr (js ''0'')) = JStr (js ''1'')"
    by (simp add: or_else_def js_simps)
  show ?thesis
    unfolding unwrapResponse_def g Let_def sum.case t1 assms(2) t2 assms(4) t3 assms(5) t4
    using assms(3) by simp
qed


lemma decode_content_no_key:
  "truthy_string aesKey = None \<Longrightarrow>
   decode_content rt contentB64 aesKey (JStr (js ''1'')) encryptCode zipCode = Inl EncryptionError"
  by (simp add: decode_content_def)

lemma decode_content_plain:
  assumes "truthy_string aesKey = Some k" and "s \<noteq> []"
    and "encryptCode \<noteq> JStr (js ''2'')"
    and "JSON_parse rt (utf8_decode (base64_decode s)) = Some v"
  shows "decode_content rt (JStr s) aesKey (JStr (js ''1'')) encryptCode (JStr (js ''0'')) = Inr v"
proof -
  have z: "js ''0'' \<noteq> js ''1''" by (simp add: js_simps)
  from assms(3) have e: "flag_text encryptCode \<noteq> js ''2''"
    by (cases encryptCode) (auto simp: js_simps)
  show ?thesis
    using assms(1,2,4) e z
    by (simp add: decode_content_def decryptAesEcb_def decrypt_data_def)
qed

lemma or_else_not_two:
  "(or_else a (JStr (js ''0'')) \<noteq> JStr (js ''2'')) = (a \<noteq> Some (JStr (js ''2'')))"
proof (cases a)
  case None
  then show ?thesis by (simp add: or_else_def js_simps)
next
  case (Some v)
  then show ?thesis by (cases v) (auto simp: or_else_def js_simps)
qed

text \<open>
  C4 (as amended): for a response envelope with a non-empty content whose
  \<open>dataDescription\<close> has \<open>codeType = '1'\<close>, \<open>unwrapResponse\<close> requires an AES key
  whatever \<open>encryptCode\<close> is: without a key (none, or the empty string) it raises an
  EncryptionError. With a key, an \<open>encryptCode\<close> other than \<open>'2'\<close> and
  \<open>zipCode = '0'\<close>, it succeeds where the decoded text parses, and returns the envelope
  with \<open>data.content\<close> replaced by the parsed text of the base64-decoded bytes, taken as
  they are, without decryption, and everything else as it was.
\<close>

theorem unwrapResponse_codeType1:
  assumes "map_of kvs (js ''data'') = Some (JObj ds)"
    and "map_of ds (js ''content'') = Some (JStr s)" and "s \<noteq> []"
    and "map_of ds (js ''dataDescription'') = Some (JObj dd)"
    and "map_of dd (js ''codeType'') = Some (JStr (js ''1''))"
  shows "(aesKey = None \<or> aesKey = Some [] \<longrightarrow>
            unwrapResponse rt (JObj kvs) aesKey = Inl EncryptionError) \<and>
         (\<forall>k v. aesKey = Some k \<and> k \<noteq> [] \<and>
                map_of dd (js ''encryptCode'') \<noteq> Some (JStr (js ''2'')) \<and>
                map_of dd (js ''zipCode'') = Some (JStr (js ''0'')) \<and>
                JSON_parse rt (utf8_decode (base64_decode s)) = Some v \<longrightarrow>
            unwrapResponse rt (JObj kvs) aesKey =
              Inr (JObj (AList.update (js ''data'')
                           (JObj (AList.update (js ''content'') v ds)) kvs)))"
proof (intro conjI allI impI)
  have p: "opt_prop (Some (JObj kvs)) (js ''data'') = Some (JObj ds)"
    "opt_prop (Some (JObj ds)) (js ''content'') = Some (JStr s)"
    "opt_prop (Some (JObj ds)) (js ''dataDescription'') = Some (JObj dd)"
    "opt_prop (Some (JObj dd)) (js ''codeType'') = Some (JStr (js ''1''))"
    using assms by simp_all
  note steps = unwrapResponse_codeType1_steps[OF p(1) p(2) assms(3) p(3) p(4)]
  {
    assume "aesKey = None \<or> aesKey = Some []"
    then have "truthy_string aesKey = None" by auto
    then show "unwrapResponse rt (JObj kvs) aesKey = Inl EncryptionError"
      unfolding steps by (simp add: decode_content_no_key)
  }
  {
    fix k v
    assume h: "aesKey = Some k \<and> k \<noteq> [] \<and>
         map_of dd (js ''encryptCode'') \<noteq> Some (JStr (js ''2'')) \<and>
         map_of dd (js ''zipCode'') = Some (JStr (js ''0'')) \<and>
         JSON_parse rt (utf8_decode (base64_decode s)) = Some v"
    then have k: "truthy_string aesKey = Some k" by simp
    from h have z: "or_else (opt_prop (Some (JObj dd)) (js ''zipCode'')) (JStr (js ''0''))
                      = JStr (js ''0'')"
      by (simp add: or_else_def)
    from h have e: "or_else (opt_prop (Some (JObj dd)) (js ''encryptCode'')) (JStr (js ''0''))
                      \<noteq> JStr (js ''2'')"
      by (simp add: or_else_not_two)
    from h have j: "JSON_parse rt (utf8_decode (base64_decode s)) = Some v" by simp
    have "decode_content rt (JStr s) aesKey (JStr (js ''1''))
            (or_else (opt_prop (Some (JObj dd)) (js ''encryptCode'')) (JStr (js ''0'')))
            (JStr (js ''0'')) = Inr v"
      by (rule decode_content_plain[OF k assms(3) e j])
    then show "unwrapResponse rt (JObj kvs) aesKey =
              Inr (JObj (AList.update (js ''data'')
                           (JObj (AList.update (js ''content'') v ds)) kvs))"
      unfolding steps z by (simp add: set_data_content_def assms(1))
  }
qed

lemma test_envelope_props:
  "opt_prop (Some (envelope c sg ct ec zc gi)) (js ''data'') =
     Some (JObj [(js ''content'', JStr c), (js ''signature'', JStr sg),
                 (js ''dataDescription'', JObj [(js ''codeType'', JStr ct),
                    (js ''encryptCode'', JStr ec), (js ''zipCode'', JStr zc)])])"
  "opt_prop (Some (JObj [(js ''content'', JStr c), (js ''signature'', JStr sg),
                 (js ''dataDescription'', dd)])) (js ''content'') = Some (JStr c)"
  "opt_prop (Some (JObj [(js ''content'', JStr c), (js ''signature'', JStr sg),
                 (js ''dataDescription'', dd)])) (js ''dataDescription'') = Some dd"
  "opt_prop (Some (JObj [(js ''codeType'', JStr ct),
                    (js ''encryptCode'', JStr ec), (js ''zipCode'', JStr zc)])) (js ''codeType'')
     = Some (JStr ct)"
  "opt_prop (Some (JObj [(js ''codeType'', JStr ct),
                    (js ''encryptCode'', JStr ec), (js ''zipCode'', JStr zc)])) (js ''encryptCode'')
     = Some (JStr ec)"
  "opt_prop (Some (JObj [(js ''codeType'', JStr ct),
                    (js ''encryptCode'', JStr ec), (js ''zipCode'', JStr zc)])) (js ''zipCode'')
     = Some (JStr zc)"
  by (simp_all add: envelope_def js_simps)

lemma test_content_parses:
  "JSON_parse test_runtime (utf8_decode (base64_decode (js ''e30=''))) = Some (JObj [])"
proof -
  have "base64_decode (js ''e30='') = [0x7b, 0x7d]"
    by (simp add: base64_decode_def b64_value_def js_simps)
  moreover have "utf8_decode [0x7b, 0x7d] = js ''{}''"
    by (simp add: utf8_decode_def utf16_units_def js_simps)
  ultimately show ?thesis by (simp add: test_runtime_def)
qed

theorem unwrapResponse_codeType1_witness:
  "unwrapResponse test_runtime
     (JObj [(js ''data'', JObj [
               (js ''content'', JStr (js ''e30='')),
               (js ''dataDescription'', JObj [
                  (js ''codeType'', JStr (js ''1'')),
                  (js ''encryptCode'', JStr (js ''1'')),
                  (js ''zipCode'', JStr (js ''0''))])]),
            (js ''returnStateInfo'', JObj [(js ''returnMessage'', JStr (js ''SUCCESS''))])])
     (Some [])
     = Inl EncryptionError \<and>
   unwrapResponse test_runtime
     (JObj [(js ''data'', JObj [
               (js ''content'', JStr (js ''e30='')),
               (js ''dataDescription'', JObj [
                  (js ''codeType'', JStr (js ''1'')),
                  (js ''encryptCode'', JStr (js ''1'')),
                  (js ''zipCode'', JStr (js ''0''))])]),
            (js ''returnStateInfo'', JObj [(js ''returnMessage'', JStr (js ''SUCCESS''))])])
     (Some (js ''k''))
     = Inr (JObj [(js ''data'', JObj [
               (js ''content'', JObj []),
               (js ''dataDescription'', JObj [
                  (js ''codeType'', JStr (js ''1'')),
                  (js ''encryptCode'', JStr (js ''1'')),
                  (js ''zipCode'', JStr (js ''0''))])]),
            (js ''returnStateInfo'', JObj [(js ''returnMessage'', JStr (js ''SUCCESS''))])])"
proof -
  let ?dd = "[(js ''codeType'', JStr (js ''1'')), (js ''encryptCode'', JStr (js ''1'')),
              (js ''zipCode'', JStr (js ''0''))]"
  let ?ds = "[(js ''content'', JStr (js ''e30='')), (js ''dataDescription'', JObj ?dd)]"
  let ?kvs = "[(js ''data'', JObj ?ds),
               (js ''returnStateInfo'', JObj [(js ''returnMessage'', JStr (js ''SUCCESS''))])]"
  have 1: "map_of ?kvs (js ''data'') = Some (JObj ?ds)" by simp
  have 2: "map_of ?ds (js ''content'') = Some (JStr (js ''e30=''))" by simp
  have 3: "js ''e30='' \<noteq> []" by (simp add: js_simps)
  have 4: "map_of ?ds (js ''dataDescription'') = Some (JObj ?dd)" by (simp add: js_simps)
  have 5: "map_of ?dd (js ''codeType'') = Some (JStr (js ''1''))" by simp
  have ec: "map_of ?dd (js ''encryptCode'') \<noteq> Some (JStr (js ''2''))"
    by (simp add: js_simps)
  have zc: "map_of ?dd (js ''zipCode'') = Some (JStr (js ''0''))"
    by (simp add: js_simps)
  have k: "js ''k'' \<noteq> []" by (simp add: js_simps)
  have u: "AList.update (js ''data'') (JObj (AList.update (js ''content'') (JObj []) ?ds)) ?kvs
             = [(js ''data'', JObj [(js ''content'', JObj []), (js ''dataDescription'', JObj ?dd)]),
                (js ''returnStateInfo'', JObj [(js ''returnMessage'', JStr (js ''SUCCESS''))])]"
    by simp
  note t = unwrapResponse_codeType1 [OF 1 2 3 4 5]
  from t [of "Some []" test_runtime]
  have a: "unwrapResponse test_runtime (JObj ?kvs) (Some []) = Inl EncryptionError" by blast
  from t [of "Some (js ''k'')" test_runtime] k ec zc test_content_parses
  have "unwrapResponse test_runtime (JObj ?kvs) (Some (js ''k'')) =
          Inr (JObj (AList.update (js ''data'')
                 (JObj (AList.update (js ''content'') (JObj []) ?ds)) ?kvs))"
    by blast
  then have b: "unwrapResponse test_runtime (JObj ?kvs) (Some (js ''k'')) =
          Inr (JObj [(js ''data'', JObj [(js ''content'', JObj []),
                        (js ''dataDescription'', JObj ?dd)]),
                (js ''returnStateInfo'', JObj [(js ''returnMessage'', JStr (js ''SUCCESS''))])])"
    unfolding u .
  from a b show ?thesis by (rule conjI)
qed

theorem unwrapResponse_keyless_counterexample:
  "unwrapResponse test_runtime
     (envelope (js ''e30='') [] (js ''1'') (js ''1'') (js ''0'') JNull) None
     = Inl EncryptionError \<and>
   JSON_parse test_runtime (utf8_decode (base64_decode (js ''e30=''))) = Some (JObj [])"
proof -
  have ne: "js ''e30='' \<noteq> []" by (simp add: js_simps)
  have "unwrapResponse test_runtime
     (envelope (js ''e30='') [] (js ''1'') (js ''1'') (js ''0'') JNull) None
     = Inl EncryptionError"
    unfolding unwrapResponse_codeType1_steps [OF test_envelope_props(1) test_envelope_props(2) ne
      test_envelope_props(3) test_envelope_props(4)]
    by (simp add: decode_content_no_key)
  with test_content_parses show ?thesis by (rule conjI[rotated])
qed

lemma pkcs7Pad_Str:
  "pkcs7Pad (Str s) =
     utf8_encode s @ replicate (16 - length (utf8_encode s) mod 16)
                       (of_nat (16 - length (utf8_encode s) mod 16))"
  by (simp add: pkcs7Pad_def AES_BLOCK_SIZE_def buffer_alloc_def Let_def)

lemma pkcs7Unpad_pkcs7Pad_Str: "pkcs7Unpad (pkcs7Pad (Str s)) = Inr (utf8_encode s)"
  unfolding pkcs7Pad_Str by (rule pkcs7Unpad_append) simp_all

lemma pkcs7Pad_nonempty: "pkcs7Pad data \<noteq> []"
  by (simp add: pkcs7Pad_def AES_BLOCK_SIZE_def buffer_alloc_def Let_def)

lemma normalizeAesKey_empty: "normalizeAesKey [] = []"
  by (simp add: normalizeAesKey_def is_hex_string_def utf8_encode_def)

lemma valid_key_nonempty:
  "valid_key_length (length (normalizeAesKey key)) \<Longrightarrow> key \<noteq> []"
  using normalizeAesKey_empty by (auto simp: valid_key_length_iff)

lemma js_zero_one: "js ''0'' \<noteq> js ''1''"
  by (simp add: js_simps)

lemma decryptAesEcb_of_encrypted:
  assumes cipher: "\<forall>k d. valid_key_length (length k) \<and> length d mod 16 = 0 \<longrightarrow>
                     length (aes_ecb_encrypt rt k d) = length d \<and>
                     aes_ecb_decrypt rt k (aes_ecb_encrypt rt k d) = d"
    and key: "valid_key_length (length (normalizeAesKey key))"
  shows "decryptAesEcb rt
           (base64_encode (aes_ecb_encrypt rt (normalizeAesKey key) (pkcs7Pad (Str plaintext))))
           (Some key) (js ''2'') (js ''0'')
         = Inr (utf8_decode (utf8_encode plaintext))"
proof -
  let ?k = "normalizeAesKey key" and ?p = "pkcs7Pad (Str plaintext)"
  let ?e = "aes_ecb_encrypt rt ?k ?p"
  have both: "length ?e = length ?p \<and> aes_ecb_decrypt rt ?k ?e = ?p"
    by (rule cipher[rule_format, OF conjI[OF key length_pkcs7Pad]])
  then have len: "length ?e = length ?p" and inv: "aes_ecb_decrypt rt ?k ?e = ?p"
    by simp_all
  from len pkcs7Pad_nonempty[of "Str plaintext"] have "?e \<noteq> []" by auto
  then have ne: "base64_encode ?e \<noteq> []" by (rule base64_encode_nonempty)
  have m: "length ?e mod AES_BLOCK_SIZE = 0"
    by (simp add: len length_pkcs7Pad AES_BLOCK_SIZE_def)
  have run: "cipher_run (aes_ecb_decrypt rt) ?k ?e = Inr ?p"
    using key by (simp add: cipher_run_def len length_pkcs7Pad inv)
  show ?thesis
    unfolding decryptAesEcb_def decrypt_data_def
    using ne js_zero_one valid_key_nonempty[OF key]
    by (simp add: base64_roundtrip m run pkcs7Unpad_pkcs7Pad_Str Let_def)
qed

text \<open>
  C1 (as amended): for every key string whose normalized key is 16, 24 or 32 bytes long
  and every well-formed plaintext string (one without an unpaired surrogate),
  \<open>encryptAesEcb\<close> succeeds, and \<open>decryptAesEcb\<close> of its result with the same key,
  \<open>encryptCode '2'\<close> and \<open>zipCode '0'\<close> returns the plaintext. The cipher is a
  parameter: on a whole number of blocks and with a valid key it keeps the length, and
  decryption undoes encryption.
\<close>

theorem aes_ecb_roundtrip:
  assumes "\<forall>k d. valid_key_length (length k) \<and> length d mod 16 = 0 \<longrightarrow>
                     length (aes_ecb_encrypt rt k d) = length d \<and>
                     aes_ecb_decrypt rt k (aes_ecb_encrypt rt k d) = d"
    and "valid_key_length (length (normalizeAesKey key))"
    and "well_formed plaintext"
  shows "\<exists>ciphertext. encryptAesEcb rt plaintext key = Inr ciphertext \<and>
           decryptAesEcb rt ciphertext (Some key) (js ''2'') (js ''0'') = Inr plaintext"
  using encryptAesEcb_valid[OF assms(2)] decryptAesEcb_of_encrypted[OF assms(1,2)]
    utf8_roundtrip[OF assms(3)]
  by simp


lemma test_runtime_cipher:
  "\<forall>k d. valid_key_length (length k) \<and> length d mod 16 = 0 \<longrightarrow>
      length (aes_ecb_encrypt test_runtime k d) = length d \<and>
      aes_ecb_decrypt test_runtime k (aes_ecb_encrypt test_runtime k d) = d"
  by (simp add: test_runtime_def comp_def)

lemma replicate_12: "replicate 12 (x :: byte) = [x, x, x, x, x, x, x, x, x, x, x, x]"
  by (simp add: eval_nat_numeral)

lemma replicate_13: "replicate 13 (x :: byte) = [x, x, x, x, x, x, x, x, x, x, x, x, x]"
  by (simp add: eval_nat_numeral)

lemma test_encrypt_emoji:
  "encryptAesEcb test_runtime [0xD83D, 0xDE00] (js ''0123456789abcdef'')
     = Inr (js ''8aCZgQ0NDQ0NDQ0NDQ0NDQ=='')"
proof -
  have u: "utf8_encode [0xD83D, 0xDE00] = [0xF0, 0x9F, 0x98, 0x80]"
    by (simp add: utf8_encode_def utf8_bytes_def is_high_surrogate_def is_low_surrogate_def)
  have p: "pkcs7Pad (Str [0xD83D, 0xDE00]) =
             [0xF0, 0x9F, 0x98, 0x80, 12, 12, 12, 12, 12, 12, 12, 12, 12, 12, 12, 12]"
    by (simp add: pkcs7Pad_def u replicate_12 AES_BLOCK_SIZE_def buffer_alloc_def Let_def)
  have c: "aes_ecb_encrypt test_runtime key
             [0xF0, 0x9F, 0x98, 0x80, 12, 12, 12, 12, 12, 12, 12, 12, 12, 12, 12, 12] =
           [0xF1, 0xA0, 0x99, 0x81, 13, 13, 13, 13, 13, 13, 13, 13, 13, 13, 13, 13]" for key
    by (simp add: test_runtime_def)
  have e: "base64_encode [0xF1, 0xA0, 0x99, 0x81, 13, 13, 13, 13, 13, 13, 13, 13, 13, 13, 13, 13]
             = js ''8aCZgQ0NDQ0NDQ0NDQ0NDQ==''"
    by (simp add: base64_encode_def b64_char_def js_simps)
  show ?thesis
    unfolding encryptAesEcb_valid[OF test_key_valid] p c e by (rule refl)
qed

theorem aes_ecb_roundtrip_witness:
  "well_formed [0xD83D, 0xDE00] \<and>
   valid_key_length (length (normalizeAesKey (js ''0123456789abcdef''))) \<and>
   encryptAesEcb test_runtime [0xD83D, 0xDE00] (js ''0123456789abcdef'')
     = Inr (js ''8aCZgQ0NDQ0NDQ0NDQ0NDQ=='') \<and>
   decryptAesEcb test_runtime (js ''8aCZgQ0NDQ0NDQ0NDQ0NDQ=='') (Some (js ''0123456789abcdef''))
     (js ''2'') (js ''0'') = Inr [0xD83D, 0xDE00]"
proof -
  have wf: "well_formed [0xD83D, 0xDE00]"
    by (simp add: well_formed_def is_high_surrogate_def is_low_surrogate_def)
  from aes_ecb_roundtrip [OF test_runtime_cipher test_key_valid wf]
  obtain c where "encryptAesEcb test_runtime [0xD83D, 0xDE00] (js ''0123456789abcdef'') = Inr c"
    and d: "decryptAesEcb test_runtime c (Some (js ''0123456789abcdef'')) (js ''2'') (js ''0'')
              = Inr [0xD83D, 0xDE00]"
    by blast
  with test_encrypt_emoji have "c = js ''8aCZgQ0NDQ0NDQ0NDQ0NDQ==''" by simp
  with d wf test_key_valid test_encrypt_emoji show ?thesis by simp
qed

theorem aes_ecb_lone_surrogate_counterexample:
  "valid_key_length (length (normalizeAesKey (js ''0123456789abcdef''))) \<and>
   encryptAesEcb test_runtime [0xD800] (js ''0123456789abcdef'')
     = Inr (js ''8MC+Dg4ODg4ODg4ODg4ODg=='') \<and>
   decryptAesEcb test_runtime (js ''8MC+Dg4ODg4ODg4ODg4ODg=='') (Some (js ''0123456789abcdef''))
     (js ''2'') (js ''0'') = Inr [0xFFFD] \<and>
   [0xFFFD] \<noteq> [0xD800 :: 16 word]"
proof -
  have u: "utf8_encode [0xD800] = [0xEF, 0xBF, 0xBD]"
    by (simp add: utf8_encode_def utf8_bytes_def is_high_surrogate_def is_low_surrogate_def)
  have p: "pkcs7Pad (Str [0xD800]) =
             [0xEF, 0xBF, 0xBD, 13, 13, 13, 13, 13, 13, 13, 13, 13, 13, 13, 13, 13]"
    by (simp add: pkcs7Pad_def u replicate_13 AES_BLOCK_SIZE_def buffer_alloc_def Let_def)
  have c: "aes_ecb_encrypt test_runtime key
             [0xEF, 0xBF, 0xBD, 13, 13, 13, 13, 13, 13, 13, 13, 13, 13, 13, 13, 13] =
           [0xF0, 0xC0, 0xBE, 14, 14, 14, 14, 14, 14, 14, 14, 14, 14, 14, 14, 14]" for key
    by (simp add: test_runtime_def)
  have e: "base64_encode [0xF0, 0xC0, 0xBE, 14, 14, 14, 14, 14, 14, 14, 14, 14, 14, 14, 14, 14]
             = js ''8MC+Dg4ODg4ODg4ODg4ODg==''"
    by (simp add: base64_encode_def b64_char_def js_simps)
  have d: "utf8_decode [0xEF, 0xBF, 0xBD] = [0xFFFD]"
    by (simp add: utf8_decode_def utf16_units_def second_ok_def is_cont_def)
  have enc: "encryptAesEcb test_runtime [0xD800] (js ''0123456789abcdef'')
     = Inr (js ''8MC+Dg4ODg4ODg4ODg4ODg=='')"
    unfolding encryptAesEcb_valid[OF test_key_valid] p c e by (rule refl)
  have dec: "decryptAesEcb test_runtime (js ''8MC+Dg4ODg4ODg4ODg4ODg=='')
     (Some (js ''0123456789abcdef'')) (js ''2'') (js ''0'') = Inr [0xFFFD]"
    using decryptAesEcb_of_encrypted[OF test_runtime_cipher test_key_valid, of "[0xD800]"]
    unfolding p c e u d .
  have ne: "[0xFFFD] \<noteq> [0xD800 :: 16 word]" by simp
  from test_key_valid enc dec ne show ?thesis by blast
qed

end
